theory Spec2Isabelle
  imports Complex_Main
begin

section \<open>JavaScript values used by the hook\<close>

text \<open>
  A JavaScript \<open>number\<close> is an IEEE double: a finite value, \<open>NaN\<close> or one of the two
  infinities. The finite values are carried as \<open>int\<close> where the hook computes with them
  (candle times are whole seconds since the epoch) and as \<open>real\<close> where they are only
  handed on (prices, pixel offsets). For a whole number of seconds \<open>t\<close> the product
  \<open>t * 1000\<close> is exact in double arithmetic whenever it lies in the range of a
  \<open>Date\<close> (below \<open>2^53\<close>), and lies outside that range also after rounding
  otherwise, so integer arithmetic decides the same cases as the double product.
\<close>

datatype 'a number = Finite 'a | NaN | PosInfinity | NegInfinity

datatype exn = RangeError

text \<open>\<open>interface Candle\<close> (lines 14-20).\<close>

record Candle =
  time :: "int number"
  "open" :: "real number"
  high :: "real number"
  low :: "real number"
  close :: "real number"

text \<open>The product \<open>c.time * 1000\<close> of lines 62 and 137.\<close>

fun times_1000 :: "int number \<Rightarrow> int number" where
  "times_1000 (Finite t) = Finite (t * 1000)"
| "times_1000 NaN = NaN"
| "times_1000 PosInfinity = PosInfinity"
| "times_1000 NegInfinity = NegInfinity"

section \<open>The built-in \<open>Date\<close> object (ECMA-262, section 21.4)\<close>

text \<open>
  A \<open>Date\<close> holds a time value: whole milliseconds since the epoch, or \<open>NaN\<close>
  (\<open>None\<close> here) for an invalid date. \<open>new Date(v)\<close> clips \<open>v\<close> with
  \<open>TimeClip\<close>: a non-finite \<open>v\<close>, or one beyond 8.64e15 in magnitude, gives
  the invalid date.
\<close>

type_synonym Date = "int option"

definition TimeClip :: "int number \<Rightarrow> Date" where
  "TimeClip v =
     (case v of
        Finite t \<Rightarrow> if \<bar>t\<bar> > 8640000000000000 then None else Some t
      | _ \<Rightarrow> None)"

definition new_Date :: "int number \<Rightarrow> Date" where
  "new_Date v = TimeClip v"

definition msPerDay :: int where "msPerDay = 86400000"
definition msPerHour :: int where "msPerHour = 3600000"
definition msPerMinute :: int where "msPerMinute = 60000"
definition msPerSecond :: int where "msPerSecond = 1000"

definition Day :: "int \<Rightarrow> int" where
  "Day t = t div msPerDay"

definition DaysInYear :: "int \<Rightarrow> int" where
  "DaysInYear y =
     (if y mod 4 \<noteq> 0 then 365
      else if y mod 100 \<noteq> 0 then 366
      else if y mod 400 \<noteq> 0 then 365
      else 366)"

definition DayFromYear :: "int \<Rightarrow> int" where
  "DayFromYear y =
     365 * (y - 1970) + (y - 1969) div 4 - (y - 1901) div 100 + (y - 1601) div 400"

lemma div_step:
  fixes x k :: int
  assumes "0 < k"
  shows "(x + 1) div k = x div k + (if (x + 1) mod k = 0 then 1 else 0)"
proof (cases "(x + 1) mod k = 0")
  case True
  then obtain q where q: "x + 1 = k * q"
    by (metis mod_eq_0_iff_dvd dvd_def)
  then have x: "x = k * (q - 1) + (k - 1)"
    by (simp add: algebra_simps)
  have "x div k = q - 1"
    by (subst x) (use assms in \<open>simp add: div_mult_self2 div_pos_pos_trivial\<close>)
  moreover have "(x + 1) div k = q"
    using q assms by simp
  ultimately show ?thesis
    using True by simp
next
  case False
  define r where "r = x mod k"
  have r: "0 \<le> r" "r < k"
    using assms by (simp_all add: r_def)
  have "r + 1 \<noteq> k"
  proof
    assume top: "r + 1 = k"
    have "(x + 1) mod k = (x mod k + 1) mod k"
      by (simp add: mod_add_left_eq)
    also have "\<dots> = k mod k"
      using top by (simp add: r_def)
    finally have "(x + 1) mod k = 0"
      by simp
    with False show False
      by simp
  qed
  with r have r1: "0 \<le> r + 1" "r + 1 < k"
    by simp_all
  have "x + 1 = (r + 1) + k * (x div k)"
    unfolding r_def by simp
  then have "(x + 1) div k = ((r + 1) + k * (x div k)) div k"
    by (rule arg_cong)
  also have "\<dots> = x div k + (r + 1) div k"
    using assms by simp
  also have "(r + 1) div k = 0"
    using r1 by (simp add: div_pos_pos_trivial)
  finally show ?thesis
    using False by simp
qed

lemma mod_shift:
  fixes y k c :: int
  assumes "c mod k = 0"
  shows "(y - c) mod k = y mod k"
proof -
  have "(y - c) mod k = (y mod k - c mod k) mod k"
    by (simp add: mod_diff_eq)
  then show ?thesis
    using assms by simp
qed

lemma mod_100_4: "(y::int) mod 100 = 0 \<Longrightarrow> y mod 4 = 0"
proof -
  assume "y mod 100 = 0"
  then have "100 dvd y" by (simp add: mod_eq_0_iff_dvd)
  moreover have "(4::int) dvd 100" by simp
  ultimately have "4 dvd y" by (rule dvd_trans[rotated])
  then show ?thesis by (simp add: mod_eq_0_iff_dvd)
qed

lemma mod_400_100: "(y::int) mod 400 = 0 \<Longrightarrow> y mod 100 = 0"
proof -
  assume "y mod 400 = 0"
  then have "400 dvd y" by (simp add: mod_eq_0_iff_dvd)
  moreover have "(100::int) dvd 400" by simp
  ultimately have "100 dvd y" by (rule dvd_trans[rotated])
  then show ?thesis by (simp add: mod_eq_0_iff_dvd)
qed

lemma leap_sum:
  fixes a b c :: int
  assumes "a' = a + (if p4 then 1 else 0)" "b' = b + (if p100 then 1 else 0)"
    "c' = c + (if p400 then 1 else 0)" "p100 \<Longrightarrow> p4" "p400 \<Longrightarrow> p100"
  shows "365 * (y - 1969) + a' - b' + c' =
         365 * (y - 1970) + a - b + c +
           (if \<not> p4 then 365 else if \<not> p100 then 366 else if \<not> p400 then 365 else 366)"
  using assms by (cases p4; cases p100; cases p400) simp_all

lemma DayFromYear_step: "DayFromYear (y + 1) = DayFromYear y + DaysInYear y"
proof -
  have e: "y - 1969 + 1 = y - 1968" "y - 1901 + 1 = y - 1900" "y - 1601 + 1 = y - 1600"
    by simp_all
  have m: "(y - 1968) mod 4 = y mod 4" "(y - 1900) mod 100 = y mod 100"
    "(y - 1600) mod 400 = y mod 400"
    by (rule mod_shift, simp)+
  have a: "(y - 1968) div 4 = (y - 1969) div 4 + (if y mod 4 = 0 then 1 else 0)"
    using div_step[of 4 "y - 1969"] unfolding e m by simp
  have b: "(y - 1900) div 100 = (y - 1901) div 100 + (if y mod 100 = 0 then 1 else 0)"
    using div_step[of 100 "y - 1901"] unfolding e m by simp
  have c: "(y - 1600) div 400 = (y - 1601) div 400 + (if y mod 400 = 0 then 1 else 0)"
    using div_step[of 400 "y - 1601"] unfolding e m by simp
  have f: "y + 1 - 1970 = y - 1969" "y + 1 - 1969 = y - 1968" "y + 1 - 1901 = y - 1900"
    "y + 1 - 1601 = y - 1600"
    by simp_all
  have "DayFromYear (y + 1) =
          365 * (y - 1969) + (y - 1968) div 4 - (y - 1900) div 100 + (y - 1600) div 400"
    unfolding DayFromYear_def f ..
  also have "\<dots> = DayFromYear y + DaysInYear y"
    unfolding DayFromYear_def DaysInYear_def
    by (rule leap_sum[OF a b c]) (simp_all add: mod_100_4 mod_400_100)
  finally show ?thesis .
qed

lemma DaysInYear_bounds: "365 \<le> DaysInYear y" "DaysInYear y \<le> 366"
  by (simp_all add: DaysInYear_def)

lemma DayFromYear_less: "DayFromYear y < DayFromYear (y + 1)"
  using DayFromYear_step[of y] DaysInYear_bounds(1)[of y] by simp

text \<open>
  \<open>YearFromTime(t)\<close> is the largest year \<open>y\<close> with
  \<open>DayFromYear(y) \<le> Day(t)\<close>. It is computed by walking from the estimate
  \<open>1970 + Day(t) div 365\<close> down to a year that starts on or before the day, and then
  up while the following year does too; \<open>YearFromDay_bracket\<close> below shows that the
  result is the year of the definition.
\<close>

function year_down :: "int \<Rightarrow> int \<Rightarrow> int" where
  "year_down d y = (if d < DayFromYear y then year_down d (y - 1) else y)"
  by pat_completeness auto
termination
proof (relation "measure (\<lambda>(d, y). nat (DayFromYear y - d))")
  show "wf (measure (\<lambda>(d, y). nat (DayFromYear y - d)))"
    by simp
next
  fix d y :: int
  assume "d < DayFromYear y"
  moreover have "DayFromYear (y - 1) < DayFromYear y"
    using DayFromYear_less[of "y - 1"] by simp
  ultimately show "((d, y - 1), (d, y)) \<in> measure (\<lambda>(d, y). nat (DayFromYear y - d))"
    by simp
qed

function year_up :: "int \<Rightarrow> int \<Rightarrow> int" where
  "year_up d y = (if DayFromYear (y + 1) \<le> d then year_up d (y + 1) else y)"
  by pat_completeness auto
termination
proof (relation "measure (\<lambda>(d, y). nat (d + 1 - DayFromYear y))")
  show "wf (measure (\<lambda>(d, y). nat (d + 1 - DayFromYear y)))"
    by simp
next
  fix d y :: int
  assume "DayFromYear (y + 1) \<le> d"
  then show "((d, y + 1), (d, y)) \<in> measure (\<lambda>(d, y). nat (d + 1 - DayFromYear y))"
    using DayFromYear_less[of y] by simp
qed

declare year_down.simps [simp del] year_up.simps [simp del]

definition YearFromDay :: "int \<Rightarrow> int" where
  "YearFromDay d = year_up d (year_down d (1970 + d div 365))"

definition YearFromTime :: "int \<Rightarrow> int" where
  "YearFromTime t = YearFromDay (Day t)"

lemma year_down_le: "DayFromYear (year_down d y) \<le> d"
proof (induction d y rule: year_down.induct)
  case (1 d y)
  show ?case
  proof (cases "d < DayFromYear y")
    case True
    then show ?thesis using 1 by (subst year_down.simps) simp
  next
    case False
    then show ?thesis by (subst year_down.simps) simp
  qed
qed

lemma year_up_bracket:
  "DayFromYear y \<le> d \<Longrightarrow>
     DayFromYear (year_up d y) \<le> d \<and> d < DayFromYear (year_up d y + 1)"
proof (induction d y rule: year_up.induct)
  case (1 d y)
  show ?case
  proof (cases "DayFromYear (y + 1) \<le> d")
    case True
    then show ?thesis using 1 by (subst (1 2) year_up.simps) simp
  next
    case False
    then show ?thesis using 1 by (subst (1 2) year_up.simps) simp
  qed
qed

lemma YearFromDay_bracket:
  "DayFromYear (YearFromDay d) \<le> d \<and> d < DayFromYear (YearFromDay d + 1)"
  unfolding YearFromDay_def by (rule year_up_bracket) (rule year_down_le)

lemma DayFromYear_mono: "y \<le> z \<Longrightarrow> DayFromYear y \<le> DayFromYear z"
proof -
  have "DayFromYear y \<le> DayFromYear (y + int n)" for n
  proof (induction n)
    case 0
    show ?case by simp
  next
    case (Suc n)
    have "DayFromYear (y + int n) < DayFromYear (y + int n + 1)"
      by (rule DayFromYear_less)
    moreover have "y + int (Suc n) = y + int n + 1" by simp
    ultimately show ?case using Suc by (simp only:)
  qed
  from this[of "nat (z - y)"] show "y \<le> z \<Longrightarrow> DayFromYear y \<le> DayFromYear z"
    by simp
qed

text \<open>The year is the largest one that starts on or before the day.\<close>
lemma YearFromDay_greatest: "DayFromYear y \<le> d \<Longrightarrow> y \<le> YearFromDay d"
proof (rule ccontr)
  assume a: "DayFromYear y \<le> d" and "\<not> y \<le> YearFromDay d"
  then have "YearFromDay d + 1 \<le> y" by simp
  then have "DayFromYear (YearFromDay d + 1) \<le> DayFromYear y" by (rule DayFromYear_mono)
  with a YearFromDay_bracket[of d] show False by simp
qed

definition InLeapYear :: "int \<Rightarrow> int" where
  "InLeapYear t = (if DaysInYear (YearFromTime t) = 366 then 1 else 0)"

definition DayWithinYear :: "int \<Rightarrow> int" where
  "DayWithinYear t = Day t - DayFromYear (YearFromTime t)"

definition MonthFromTime :: "int \<Rightarrow> int" where
  "MonthFromTime t =
     (let d = DayWithinYear t; l = InLeapYear t in
      if d < 31 then 0
      else if d < 59 + l then 1
      else if d < 90 + l then 2
      else if d < 120 + l then 3
      else if d < 151 + l then 4
      else if d < 181 + l then 5
      else if d < 212 + l then 6
      else if d < 243 + l then 7
      else if d < 273 + l then 8
      else if d < 304 + l then 9
      else if d < 334 + l then 10
      else 11)"

definition DateFromTime :: "int \<Rightarrow> int" where
  "DateFromTime t =
     (let d = DayWithinYear t; l = InLeapYear t; m = MonthFromTime t in
      if m = 0 then d + 1
      else if m = 1 then d - 30
      else if m = 2 then d - 58 - l
      else if m = 3 then d - 89 - l
      else if m = 4 then d - 119 - l
      else if m = 5 then d - 150 - l
      else if m = 6 then d - 180 - l
      else if m = 7 then d - 211 - l
      else if m = 8 then d - 242 - l
      else if m = 9 then d - 272 - l
      else if m = 10 then d - 303 - l
      else d - 333 - l)"

definition HourFromTime :: "int \<Rightarrow> int" where
  "HourFromTime t = (t div msPerHour) mod 24"

definition MinFromTime :: "int \<Rightarrow> int" where
  "MinFromTime t = (t div msPerMinute) mod 60"

definition SecFromTime :: "int \<Rightarrow> int" where
  "SecFromTime t = (t div msPerSecond) mod 60"

definition msFromTime :: "int \<Rightarrow> int" where
  "msFromTime t = t mod msPerSecond"


section \<open>Strings: decimal digits and \<open>padStart\<close>\<close>

definition digit_char :: "nat \<Rightarrow> char" where
  "digit_char n = ''0123456789'' ! n"

text \<open>The decimal digits of a natural number, most significant first.\<close>

fun dec :: "nat \<Rightarrow> string" where
  "dec n = (if n < 10 then [digit_char n] else dec (n div 10) @ [digit_char (n mod 10)])"

declare dec.simps [simp del]

text \<open>
  \<open>Number.prototype.toString\<close> on the numbers that occur here: a whole number prints
  in decimal with a leading minus sign when negative, and the three non-finite values
  print by name.
\<close>

fun toString :: "int number \<Rightarrow> string" where
  "toString (Finite i) = (if i < 0 then ''-'' @ dec (nat (- i)) else dec (nat i))"
| "toString NaN = ''NaN''"
| "toString PosInfinity = ''Infinity''"
| "toString NegInfinity = ''-Infinity''"

text \<open>\<open>s.padStart(n, c)\<close> with a one-character filler.\<close>

definition padStart :: "nat \<Rightarrow> char \<Rightarrow> string \<Rightarrow> string" where
  "padStart n c s = replicate (n - length s) c @ s"

text \<open>\<open>s.split(sep)[0]\<close> with a one-character separator: the part before its first
  occurrence, or all of \<open>s\<close> when there is none.\<close>

definition split_0 :: "char \<Rightarrow> string \<Rightarrow> string" where
  "split_0 sep s = takeWhile (\<lambda>c. c \<noteq> sep) s"

section \<open>\<open>Date.prototype\<close> methods\<close>

text \<open>
  \<open>toISOString\<close> throws a \<open>RangeError\<close> on an invalid date and otherwise prints
  \<open>YYYY-MM-DDTHH:mm:ss.sssZ\<close> in UTC; years outside 0..9999 print with a sign and
  six digits.
\<close>

definition two_digits :: "int \<Rightarrow> string" where
  "two_digits n = padStart 2 CHR ''0'' (dec (nat n))"

definition three_digits :: "int \<Rightarrow> string" where
  "three_digits n = padStart 3 CHR ''0'' (dec (nat n))"

definition year_digits :: "int \<Rightarrow> string" where
  "year_digits y =
     (if 0 \<le> y \<and> y \<le> 9999 then padStart 4 CHR ''0'' (dec (nat y))
      else (if y < 0 then ''-'' else ''+'') @ padStart 6 CHR ''0'' (dec (nat \<bar>y\<bar>)))"

definition iso_date :: "int \<Rightarrow> string" where
  "iso_date t =
     year_digits (YearFromTime t) @ ''-'' @ two_digits (MonthFromTime t + 1) @ ''-'' @
     two_digits (DateFromTime t)"

definition iso_time :: "int \<Rightarrow> string" where
  "iso_time t =
     two_digits (HourFromTime t) @ '':'' @ two_digits (MinFromTime t) @ '':'' @
     two_digits (SecFromTime t) @ ''.'' @ three_digits (msFromTime t) @ ''Z''"

definition toISOString :: "Date \<Rightarrow> exn + string" where
  "toISOString d =
     (case d of
        None \<Rightarrow> Inl RangeError
      | Some t \<Rightarrow> Inr (iso_date t @ ''T'' @ iso_time t))"

text \<open>
  The local-time getters read the time value shifted by the offset of the host's time
  zone, which is a parameter \<open>tza\<close> here (milliseconds to add to a UTC time value; it
  may depend on the time because of daylight saving). On an invalid date they return
  \<open>NaN\<close>.
\<close>

definition LocalTime :: "(int \<Rightarrow> int) \<Rightarrow> int \<Rightarrow> int" where
  "LocalTime tza t = t + tza t"

definition getHours :: "(int \<Rightarrow> int) \<Rightarrow> Date \<Rightarrow> int number" where
  "getHours tza d = (case d of None \<Rightarrow> NaN | Some t \<Rightarrow> Finite (HourFromTime (LocalTime tza t)))"

definition getMinutes :: "(int \<Rightarrow> int) \<Rightarrow> Date \<Rightarrow> int number" where
  "getMinutes tza d = (case d of None \<Rightarrow> NaN | Some t \<Rightarrow> Finite (MinFromTime (LocalTime tza t)))"

definition getDate :: "(int \<Rightarrow> int) \<Rightarrow> Date \<Rightarrow> int number" where
  "getDate tza d = (case d of None \<Rightarrow> NaN | Some t \<Rightarrow> Finite (DateFromTime (LocalTime tza t)))"

text \<open>
  \<open>date.toLocaleString('en-US', { month: 'short' })\<close>: the abbreviated English month
  name of the local date, and \<open>Invalid Date\<close> for an invalid date.
\<close>

definition month_short :: "int \<Rightarrow> string" where
  "month_short m =
     [''Jan'', ''Feb'', ''Mar'', ''Apr'', ''May'', ''Jun'',
      ''Jul'', ''Aug'', ''Sep'', ''Oct'', ''Nov'', ''Dec''] ! nat m"

definition toLocaleString_month_short :: "(int \<Rightarrow> int) \<Rightarrow> Date \<Rightarrow> string" where
  "toLocaleString_month_short tza d =
     (case d of
        None \<Rightarrow> ''Invalid Date''
      | Some t \<Rightarrow> month_short (MonthFromTime (LocalTime tza t)))"

section \<open>Operators on numbers used by the tick formatter\<close>

text \<open>\<open>a >= k\<close> for a whole number \<open>k\<close>: false on \<open>NaN\<close>.\<close>

fun number_ge :: "int number \<Rightarrow> int \<Rightarrow> bool" where
  "number_ge (Finite a) k = (k \<le> a)"
| "number_ge NaN k = False"
| "number_ge PosInfinity k = True"
| "number_ge NegInfinity k = False"

text \<open>\<open>a % k\<close> for a positive whole number \<open>k\<close>: the remainder takes the sign of
  \<open>a\<close>, and is \<open>NaN\<close> when \<open>a\<close> is not finite.\<close>

fun number_rem :: "int number \<Rightarrow> int \<Rightarrow> int number" where
  "number_rem (Finite a) k = Finite (sgn a * (\<bar>a\<bar> mod k))"
| "number_rem NaN k = NaN"
| "number_rem PosInfinity k = NaN"
| "number_rem NegInfinity k = NaN"

text \<open>\<open>a || b\<close> on numbers: \<open>b\<close> when \<open>a\<close> is falsy (zero or \<open>NaN\<close>).\<close>

fun number_or :: "int number \<Rightarrow> int number \<Rightarrow> int number" where
  "number_or (Finite a) b = (if a = 0 then b else Finite a)"
| "number_or NaN b = b"
| "number_or PosInfinity b = PosInfinity"
| "number_or NegInfinity b = NegInfinity"


section \<open>The rendering engine\<close>

text \<open>
  Modelled from the spec: the chart library (\<open>lightweight-charts\<close>) is an external
  collaborator, named in section 6 of the specification only by the operations the hook
  calls. A chart is modelled by what those operations are said to do: \<open>setData\<close>
  replaces the series content wholesale, \<open>fitContent\<close> fits the visible range to all
  loaded bars (the logical range from the first bar to the last), and
  \<open>priceScale('right').applyOptions({ autoScale: true })\<close> switches automatic price
  scaling on. Every call is also appended to a log, so that the calls a handler makes can
  be counted. What the library does beyond that (its drawing, its own errors) is outside
  this model.
\<close>

record CandlestickData =
  data_time :: "int number"
  data_open :: "real number"
  data_high :: "real number"
  data_low :: "real number"
  data_close :: "real number"

datatype engine_call =
    SetData "CandlestickData list"
  | FitContent
  | ApplyAutoScale

record IChartApi =
  series_data :: "CandlestickData list"
  visible_range :: "(int \<times> int) option"
  auto_scale :: bool
  calls :: "engine_call list"

datatype ISeriesApi = CandlestickSeries

definition setData :: "CandlestickData list \<Rightarrow> IChartApi \<Rightarrow> IChartApi" where
  "setData formatted chart =
     chart\<lparr>series_data := formatted, calls := calls chart @ [SetData formatted]\<rparr>"

definition fitContent :: "IChartApi \<Rightarrow> IChartApi" where
  "fitContent chart =
     chart\<lparr>visible_range :=
             (if series_data chart = [] then visible_range chart
              else Some (0, int (length (series_data chart)) - 1)),
           calls := calls chart @ [FitContent]\<rparr>"

definition applyOptions_autoScale :: "IChartApi \<Rightarrow> IChartApi" where
  "applyOptions_autoScale chart =
     chart\<lparr>auto_scale := True, calls := calls chart @ [ApplyAutoScale]\<rparr>"

text \<open>The viewport: what the user sees of the time axis and of the price axis.\<close>

definition viewport :: "IChartApi \<Rightarrow> (int \<times> int) option \<times> bool" where
  "viewport chart = (visible_range chart, auto_scale chart)"

section \<open>The hook \<open>useCandlestickChart\<close>\<close>

text \<open>
  The refs and state variables of lines 27-34. The series handle of \<open>seriesRef\<close>
  belongs to the chart of \<open>chartRef\<close>: the mount effect stores both together
  (lines 107-108) and its cleanup clears both together (lines 121-122), so a call through
  the series handle acts on the chart held in \<open>chartRef\<close>.
\<close>

record hook_state =
  chartRef :: "IChartApi option"
  seriesRef :: "ISeriesApi option"
  prevSymbolRef :: "string option"
  newDayTimestamps :: "int number set"
  hasData :: bool
  crosshairTime :: "string option"
  crosshairX :: "real number option"

definition initial_state :: hook_state where
  "initial_state =
     \<lparr>chartRef = None, seriesRef = None, prevSymbolRef = None, newDayTimestamps = {},
      hasData = False, crosshairTime = None, crosshairX = None\<rparr>"

text \<open>
  The mount effect (lines 36-124), as far as the refs go: without a container it returns
  at once; otherwise it creates a chart with one candlestick series and stores both.
\<close>

definition createChart :: IChartApi where
  "createChart = \<lparr>series_data = [], visible_range = None, auto_scale = True, calls = []\<rparr>"

definition mountEffect :: "bool \<Rightarrow> hook_state \<Rightarrow> hook_state" where
  "mountEffect container_present s =
     (if \<not> container_present then s
      else s\<lparr>chartRef := Some createChart, seriesRef := Some CandlestickSeries\<rparr>)"

subsection \<open>The tick-mark formatter (lines 60-77)\<close>

definition tickMarkFormatter :: "(int \<Rightarrow> int) \<Rightarrow> hook_state \<Rightarrow> int number \<Rightarrow> string" where
  "tickMarkFormatter tza s t =
     (let date = new_Date (times_1000 t);
          hours = getHours tza date;
          minutes = getMinutes tza date
      in if t \<in> newDayTimestamps s then
           (let month = toLocaleString_month_short tza date;
                day = getDate tza date
            in month @ '' '' @ toString day)
         else
           (let ampm = (if number_ge hours 12 then ''PM'' else ''AM'');
                displayHour = number_or (number_rem hours 12) (Finite 12)
            in toString displayHour @ '':'' @ padStart 2 CHR ''0'' (toString minutes) @
               '' '' @ ampm))"

subsection \<open>The crosshair subscription (lines 97-105)\<close>

text \<open>
  A \<open>Time\<close> of the chart library is a UTC timestamp (a number), a business day or a
  date string; only the first has \<open>typeof\<close> \<open>number\<close>. \<open>formatCrosshairTime\<close> is
  imported from \<open>./formatters\<close> and is a parameter here.
\<close>

datatype Time = UTCTimestamp "int number" | BusinessDay int int int | DateString string

record Point =
  point_x :: "real number"
  point_y :: "real number"

record MouseEventParams =
  param_time :: "Time option"
  param_point :: "Point option"

fun typeof_number :: "Time option \<Rightarrow> bool" where
  "typeof_number (Some (UTCTimestamp t)) = True"
| "typeof_number _ = False"

definition crosshairMove ::
  "(int number \<Rightarrow> string) \<Rightarrow> hook_state \<Rightarrow> MouseEventParams \<Rightarrow> hook_state" where
  "crosshairMove formatCrosshairTime s param =
     (case (param_point param, param_time param) of
        (Some p, Some (UTCTimestamp t)) \<Rightarrow>
          s\<lparr>crosshairTime := Some (formatCrosshairTime t), crosshairX := Some (point_x p)\<rparr>
      | _ \<Rightarrow> s\<lparr>crosshairTime := None, crosshairX := None\<rparr>)"

subsection \<open>The data effect (lines 126-161)\<close>

text \<open>Line 137: the UTC day key of a candle, or the exception of \<open>toISOString\<close>.\<close>

definition dateStr :: "Candle \<Rightarrow> exn + string" where
  "dateStr c =
     (case toISOString (new_Date (times_1000 (time c))) of
        Inl e \<Rightarrow> Inl e
      | Inr str \<Rightarrow> Inr (split_0 CHR ''T'' str))"

text \<open>
  The loop of lines 136-142 over the set being filled and \<open>lastDate\<close>. An exception
  leaves the loop at once, with the set as it is at that moment.
\<close>

fun forEach_candle ::
  "Candle list \<Rightarrow> int number set \<Rightarrow> string option \<Rightarrow> int number set \<times> exn option" where
  "forEach_candle [] days lastDate = (days, None)"
| "forEach_candle (c # cs) days lastDate =
     (case dateStr c of
        Inl e \<Rightarrow> (days, Some e)
      | Inr d \<Rightarrow>
          if Some d \<noteq> lastDate then forEach_candle cs (insert (time c) days) (Some d)
          else forEach_candle cs days lastDate)"

text \<open>Lines 144-150.\<close>

definition formatted_candle :: "Candle \<Rightarrow> CandlestickData" where
  "formatted_candle c =
     \<lparr>data_time = time c, data_open = open c, data_high = high c, data_low = low c,
      data_close = close c\<rparr>"

text \<open>
  One run of the effect on the current candles and symbol. The result is the state
  afterwards and the exception that left the effect, if any.
\<close>

definition reconcile :: "hook_state \<Rightarrow> Candle list \<Rightarrow> string \<Rightarrow> hook_state \<times> exn option" where
  "reconcile s candles symbol =
     (case (seriesRef s, chartRef s) of
        (Some series, Some chart) \<Rightarrow>
          if candles = [] then (s\<lparr>hasData := False\<rparr>, None)
          else
            (case forEach_candle candles {} None of
               (days, Some e) \<Rightarrow> (s\<lparr>newDayTimestamps := days\<rparr>, Some e)
             | (days, None) \<Rightarrow>
                 (let formatted = map formatted_candle candles;
                      chart1 = setData formatted chart;
                      chart2 = (if prevSymbolRef s \<noteq> Some symbol
                                then applyOptions_autoScale (fitContent chart1)
                                else chart1)
                  in (s\<lparr>newDayTimestamps := days, chartRef := Some chart2, hasData := True,
                         prevSymbolRef := Some symbol\<rparr>, None)))
      | _ \<Rightarrow> (s\<lparr>hasData := False\<rparr>, None))"

subsection \<open>\<open>resetView\<close> (lines 163-166)\<close>

definition resetView :: "hook_state \<Rightarrow> hook_state" where
  "resetView s =
     (let s1 = (case chartRef s of
                  None \<Rightarrow> s
                | Some chart \<Rightarrow> s\<lparr>chartRef := Some (fitContent chart)\<rparr>)
      in case chartRef s1 of
           None \<Rightarrow> s1
         | Some chart \<Rightarrow> s1\<lparr>chartRef := Some (applyOptions_autoScale chart)\<rparr>)"


subsection \<open>Vocabulary of the properties\<close>

text \<open>
  A candle time is convertible when \<open>new Date(time * 1000)\<close> is a valid date, that is,
  when the time is finite and at most 8.64e12 seconds from the epoch in either direction.
\<close>

definition valid_time :: "int number \<Rightarrow> bool" where
  "valid_time t = (new_Date (times_1000 t) \<noteq> None)"

text \<open>\<open>a <= b\<close> on numbers, and a candle sequence in ascending order of time.\<close>

fun number_le :: "int number \<Rightarrow> int number \<Rightarrow> bool" where
  "number_le (Finite a) (Finite b) = (a \<le> b)"
| "number_le NaN _ = False"
| "number_le _ NaN = False"
| "number_le NegInfinity _ = True"
| "number_le _ PosInfinity = True"
| "number_le _ _ = False"

definition ascending :: "Candle list \<Rightarrow> bool" where
  "ascending candles = sorted_wrt (\<lambda>a b. number_le (time a) (time b)) candles"

text \<open>The state after a sequence of runs of the data effect, each with its candles and symbol.\<close>

fun reconcile_all :: "hook_state \<Rightarrow> (Candle list \<times> string) list \<Rightarrow> hook_state" where
  "reconcile_all s [] = s"
| "reconcile_all s ((candles, symbol) # runs) = reconcile_all (fst (reconcile s candles symbol)) runs"

text \<open>
  The two shapes of a tick label: an abbreviated English month name, a space and a day of
  the month; or an hour from 1 to 12, a colon, two digits of minutes, a space and
  \<open>AM\<close> or \<open>PM\<close>.
\<close>

definition is_month_day_label :: "string \<Rightarrow> bool" where
  "is_month_day_label s =
     (\<exists>m\<in>{0..11::int}. \<exists>d\<in>{1..31::int}. s = month_short m @ '' '' @ dec (nat d))"

definition is_clock_label :: "string \<Rightarrow> bool" where
  "is_clock_label s =
     (\<exists>h\<in>{1..12::int}. \<exists>m\<in>{0..59::int}. \<exists>ampm\<in>{''AM'', ''PM''}.
        s = dec (nat h) @ '':'' @ two_digits m @ '' '' @ ampm)"

section \<open>Concrete inputs for the closed instances\<close>

text \<open>A mounted hook before its first data, a candle at a given second, and the time zone
  with no offset.\<close>

definition live_state :: hook_state where
  "live_state = mountEffect True initial_state"

definition candle_at :: "int number \<Rightarrow> Candle" where
  "candle_at t = \<lparr>time = t, open = Finite 1, high = PosInfinity, low = Finite (1 / 2), close = NaN\<rparr>"

definition utc_zone :: "int \<Rightarrow> int" where
  "utc_zone t = 0"

text \<open>
  A candle beyond the range of \<open>Date\<close> (1e13 seconds is past the year 275760), the
  three candles of scenario A of the specification (two on 14 November 2023 UTC, one on
  the 15th), one candle later on the 15th, and the state after a run on scenario A.
\<close>

definition far_candle :: Candle where
  "far_candle = candle_at (Finite 10000000000000)"

definition scenario_A :: "Candle list" where
  "scenario_A =
     [candle_at (Finite 1700000000), candle_at (Finite 1700003600), candle_at (Finite 1700086400)]"

definition next_day :: "Candle list" where
  "next_day = [candle_at (Finite 1700090000)]"

definition after_AAPL :: hook_state where
  "after_AAPL = fst (reconcile live_state scenario_A ''AAPL'')"

lemma live_state_refs [simp]:
  "chartRef live_state = Some createChart"
  "seriesRef live_state = Some CandlestickSeries"
  "prevSymbolRef live_state = None"
  "newDayTimestamps live_state = {}"
  "hasData live_state = False"
  by (simp_all add: live_state_def mountEffect_def initial_state_def)

section \<open>Facts about the calendar functions\<close>

lemma InLeapYear_DaysInYear: "DaysInYear (YearFromTime t) = 365 + InLeapYear t"
  by (simp add: InLeapYear_def DaysInYear_def)

lemma InLeapYear_cases: "InLeapYear t = 0 \<or> InLeapYear t = 1"
  by (simp add: InLeapYear_def)

lemma DayWithinYear_bounds:
  "0 \<le> DayWithinYear t" "DayWithinYear t < 365 + InLeapYear t"
proof -
  have b: "DayFromYear (YearFromTime t) \<le> Day t \<and> Day t < DayFromYear (YearFromTime t + 1)"
    unfolding YearFromTime_def by (rule YearFromDay_bracket)
  then show "0 \<le> DayWithinYear t"
    by (simp add: DayWithinYear_def)
  from b show "DayWithinYear t < 365 + InLeapYear t"
    unfolding DayWithinYear_def DayFromYear_step InLeapYear_DaysInYear by simp
qed

lemma MonthFromTime_bounds: "0 \<le> MonthFromTime t" "MonthFromTime t \<le> 11"
  by (simp_all add: MonthFromTime_def Let_def)

text \<open>The day of the month is the day within the year less the days of the months before.\<close>

definition days_before_month :: "int \<Rightarrow> int \<Rightarrow> int" where
  "days_before_month m l =
     (if m = 0 then 0 else if m = 1 then 31 else if m = 2 then 59 + l
      else if m = 3 then 90 + l else if m = 4 then 120 + l else if m = 5 then 151 + l
      else if m = 6 then 181 + l else if m = 7 then 212 + l else if m = 8 then 243 + l
      else if m = 9 then 273 + l else if m = 10 then 304 + l else 334 + l)"

lemma DateFromTime_eq:
  "DateFromTime t = DayWithinYear t + 1 - days_before_month (MonthFromTime t) (InLeapYear t)"
  by (simp add: DateFromTime_def days_before_month_def Let_def)

lemma DateFromTime_bounds: "1 \<le> DateFromTime t" "DateFromTime t \<le> 31"
proof -
  define d where "d = DayWithinYear t"
  define l where "l = InLeapYear t"
  have d: "0 \<le> d" "d < 365 + l" and l: "l = 0 \<or> l = 1"
    using DayWithinYear_bounds[of t] InLeapYear_cases[of t] by (simp_all add: d_def l_def)
  have m: "MonthFromTime t =
      (if d < 31 then 0 else if d < 59 + l then 1 else if d < 90 + l then 2
       else if d < 120 + l then 3 else if d < 151 + l then 4 else if d < 181 + l then 5
       else if d < 212 + l then 6 else if d < 243 + l then 7 else if d < 273 + l then 8
       else if d < 304 + l then 9 else if d < 334 + l then 10 else 11)"
    by (simp add: MonthFromTime_def Let_def d_def l_def)
  have e: "DateFromTime t = d + 1 - days_before_month (MonthFromTime t) l"
    by (simp add: DateFromTime_eq d_def l_def)
  show "1 \<le> DateFromTime t"
    unfolding e m using d l by (auto simp: days_before_month_def)
  show "DateFromTime t \<le> 31"
    unfolding e m using d l by (auto simp: days_before_month_def)
qed

lemma HourFromTime_bounds: "0 \<le> HourFromTime t" "HourFromTime t < 24"
  by (simp_all add: HourFromTime_def)

lemma MinFromTime_bounds: "0 \<le> MinFromTime t" "MinFromTime t < 60"
  by (simp_all add: MinFromTime_def)

text \<open>The calendar fields of a time value depend on its day only, and determine it.\<close>

lemma Day_from_fields:
  "Day t = DayFromYear (YearFromTime t) +
           (DateFromTime t - 1 + days_before_month (MonthFromTime t) (InLeapYear t))"
  by (simp add: DateFromTime_eq DayWithinYear_def)

lemma fields_determine_Day:
  assumes "YearFromTime t = YearFromTime u" "MonthFromTime t = MonthFromTime u"
    "DateFromTime t = DateFromTime u"
  shows "Day t = Day u"
proof -
  have "InLeapYear t = InLeapYear u"
    using assms(1) by (simp add: InLeapYear_def)
  then show ?thesis
    using assms by (simp add: Day_from_fields[of t] Day_from_fields[of u])
qed

lemma fields_from_Day:
  assumes "Day t = Day u"
  shows "YearFromTime t = YearFromTime u" "MonthFromTime t = MonthFromTime u"
    "DateFromTime t = DateFromTime u"
proof -
  show y: "YearFromTime t = YearFromTime u"
    using assms by (simp add: YearFromTime_def)
  then have l: "InLeapYear t = InLeapYear u" and d: "DayWithinYear t = DayWithinYear u"
    using assms by (simp_all add: InLeapYear_def DayWithinYear_def)
  then show m: "MonthFromTime t = MonthFromTime u"
    by (simp add: MonthFromTime_def)
  with l d show "DateFromTime t = DateFromTime u"
    by (simp add: DateFromTime_eq)
qed

section \<open>Facts about the printed digits\<close>

lemma nat_less_10_cases: "(n::nat) < 10 \<Longrightarrow> n \<in> {0, 1, 2, 3, 4, 5, 6, 7, 8, 9}"
  by (simp only: insert_iff empty_iff) arith

text \<open>Reading the digits back: the position of a character among the ten digits, and the
  number a digit string stands for.\<close>

definition digit_val :: "char \<Rightarrow> nat" where
  "digit_val c = length (takeWhile (\<lambda>d. d \<noteq> c) ''0123456789'')"

definition undec :: "string \<Rightarrow> nat" where
  "undec s = foldl (\<lambda>a c. 10 * a + digit_val c) 0 s"

lemma digit_char_digit: "n < 10 \<Longrightarrow> digit_char n \<in> set ''0123456789''"
  by (drule nat_less_10_cases) (auto simp: digit_char_def)

lemma digit_val_digit_char: "n < 10 \<Longrightarrow> digit_val (digit_char n) = n"
  by (drule nat_less_10_cases) (auto simp: digit_char_def digit_val_def)

lemma dec_digits: "set (dec n) \<subseteq> set ''0123456789''"
proof (induction n rule: dec.induct)
  case (1 n)
  show ?case
  proof (cases "n < 10")
    case True
    then show ?thesis
      using digit_char_digit[of n] by (subst dec.simps) simp
  next
    case False
    have "n mod 10 < 10" by simp
    then have "digit_char (n mod 10) \<in> set ''0123456789''"
      by (rule digit_char_digit)
    with False 1 show ?thesis
      by (subst dec.simps) simp
  qed
qed

lemma dec_not_Nil: "dec n \<noteq> []"
  by (subst dec.simps) simp

lemma length_dec_1: "n < 10 \<Longrightarrow> length (dec n) = 1"
  by (subst dec.simps) simp

lemma length_dec_2: "n < 100 \<Longrightarrow> length (dec n) \<le> 2"
proof -
  assume n: "n < 100"
  show ?thesis
  proof (cases "n < 10")
    case True
    then show ?thesis by (simp add: length_dec_1)
  next
    case False
    from n have "n div 10 < 10" by simp
    then have "length (dec (n div 10)) = 1" by (rule length_dec_1)
    with False show ?thesis by (subst dec.simps) simp
  qed
qed

lemma undec_snoc: "undec (s @ [c]) = 10 * undec s + digit_val c"
  by (simp add: undec_def)

lemma undec_dec: "undec (dec n) = n"
proof (induction n rule: dec.induct)
  case (1 n)
  show ?case
  proof (cases "n < 10")
    case True
    then show ?thesis
      by (subst dec.simps) (simp add: undec_def digit_val_digit_char)
  next
    case False
    have "undec (dec n) = 10 * undec (dec (n div 10)) + digit_val (digit_char (n mod 10))"
      using False by (subst dec.simps) (simp add: undec_snoc)
    also have "\<dots> = 10 * (n div 10) + n mod 10"
      using 1 False by (simp add: digit_val_digit_char)
    finally show ?thesis by simp
  qed
qed

lemma undec_zeros: "undec (replicate k CHR ''0'' @ s) = undec s"
  by (induction k) (simp_all add: undec_def digit_val_def)

lemma undec_padStart: "undec (padStart k CHR ''0'' (dec n)) = n"
  by (simp add: padStart_def undec_zeros undec_dec)

lemma padStart_dec_inj:
  "padStart k CHR ''0'' (dec n) = padStart k CHR ''0'' (dec m) \<Longrightarrow> n = m"
  by (metis undec_padStart)

lemma padStart_digits: "set (padStart k CHR ''0'' (dec n)) \<subseteq> set ''0123456789''"
  using dec_digits[of n] by (auto simp: padStart_def)

lemma padStart_not_Nil: "padStart k c (dec n) \<noteq> []"
  by (simp add: padStart_def dec_not_Nil)

lemma two_digits_length: "0 \<le> n \<Longrightarrow> n < 100 \<Longrightarrow> length (two_digits n) = 2"
proof -
  assume "0 \<le> n" "n < 100"
  then have "nat n < 100" by simp
  then have "length (dec (nat n)) \<le> 2" by (rule length_dec_2)
  then show ?thesis by (simp add: two_digits_def padStart_def)
qed

lemma two_digits_inj: "0 \<le> n \<Longrightarrow> 0 \<le> m \<Longrightarrow> two_digits n = two_digits m \<Longrightarrow> n = m"
  unfolding two_digits_def by (drule padStart_dec_inj) simp

lemma two_digits_digits: "set (two_digits n) \<subseteq> set ''0123456789''"
  unfolding two_digits_def by (rule padStart_digits)

lemma dec_avoid: "c \<notin> set ''0123456789'' \<Longrightarrow> c \<notin> set (dec n)"
  using dec_digits[of n] by blast

lemma padStart_avoid:
  "c \<notin> set ''0123456789'' \<Longrightarrow> c \<notin> set (padStart k CHR ''0'' (dec n))"
proof -
  assume c: "c \<notin> set ''0123456789''"
  then have "c \<noteq> CHR ''0''" by auto
  with c dec_avoid[of c n] show ?thesis by (simp add: padStart_def)
qed

lemma two_digits_avoid: "c \<notin> set ''0123456789'' \<Longrightarrow> c \<notin> set (two_digits n)"
  unfolding two_digits_def by (rule padStart_avoid)

lemma hd_padStart_digit: "hd (padStart k CHR ''0'' (dec n)) \<in> set ''0123456789''"
proof -
  have "hd (padStart k CHR ''0'' (dec n)) \<in> set (padStart k CHR ''0'' (dec n))"
    by (rule hd_in_set) (rule padStart_not_Nil)
  then show ?thesis
    using padStart_digits[of k n] by blast
qed

lemma year_digits_plain: "0 \<le> y \<and> y \<le> 9999 \<Longrightarrow> year_digits y = padStart 4 CHR ''0'' (dec (nat y))"
  by (simp add: year_digits_def)

lemma year_digits_signed:
  "\<not> (0 \<le> y \<and> y \<le> 9999) \<Longrightarrow>
     year_digits y = (if y < 0 then CHR ''-'' else CHR ''+'') # padStart 6 CHR ''0'' (dec (nat \<bar>y\<bar>))"
  by (simp add: year_digits_def)

lemma sign_not_digit: "(if b then CHR ''-'' else CHR ''+'') \<notin> set ''0123456789''"
  by simp

lemma year_digits_inj:
  assumes "year_digits y = year_digits z"
  shows "y = z"
proof -
  consider (pp) "0 \<le> y \<and> y \<le> 9999" "0 \<le> z \<and> z \<le> 9999"
    | (ps) "0 \<le> y \<and> y \<le> 9999" "\<not> (0 \<le> z \<and> z \<le> 9999)"
    | (sp) "\<not> (0 \<le> y \<and> y \<le> 9999)" "0 \<le> z \<and> z \<le> 9999"
    | (ss) "\<not> (0 \<le> y \<and> y \<le> 9999)" "\<not> (0 \<le> z \<and> z \<le> 9999)"
    by blast
  then show ?thesis
  proof cases
    case pp
    have "padStart 4 CHR ''0'' (dec (nat y)) = padStart 4 CHR ''0'' (dec (nat z))"
      using assms unfolding year_digits_plain[OF pp(1)] year_digits_plain[OF pp(2)] .
    then have "nat y = nat z" by (rule padStart_dec_inj)
    with pp show ?thesis by linarith
  next
    case ps
    have "hd (padStart 4 CHR ''0'' (dec (nat y))) = (if z < 0 then CHR ''-'' else CHR ''+'')"
      using assms unfolding year_digits_plain[OF ps(1)] year_digits_signed[OF ps(2)] by simp
    with hd_padStart_digit[of 4 "nat y"] sign_not_digit[of "z < 0"] show ?thesis
      by (simp only:)
  next
    case sp
    have "hd (padStart 4 CHR ''0'' (dec (nat z))) = (if y < 0 then CHR ''-'' else CHR ''+'')"
      using assms[symmetric] unfolding year_digits_signed[OF sp(1)] year_digits_plain[OF sp(2)]
      by simp
    with hd_padStart_digit[of 4 "nat z"] sign_not_digit[of "y < 0"] show ?thesis
      by (simp only:)
  next
    case ss
    have e: "(if y < 0 then CHR ''-'' else CHR ''+'') # padStart 6 CHR ''0'' (dec (nat \<bar>y\<bar>)) =
          (if z < 0 then CHR ''-'' else CHR ''+'') # padStart 6 CHR ''0'' (dec (nat \<bar>z\<bar>))"
      using assms unfolding year_digits_signed[OF ss(1)] year_digits_signed[OF ss(2)] .
    then have "padStart 6 CHR ''0'' (dec (nat \<bar>y\<bar>)) = padStart 6 CHR ''0'' (dec (nat \<bar>z\<bar>))"
      by simp
    then have a: "nat \<bar>y\<bar> = nat \<bar>z\<bar>" by (rule padStart_dec_inj)
    from e have s: "(y < 0) = (z < 0)"
      by (simp split: if_splits)
    from a s show ?thesis by linarith
  qed
qed

lemma year_digits_avoid:
  "c \<notin> set ''0123456789'' \<Longrightarrow> c \<noteq> CHR ''-'' \<Longrightarrow> c \<noteq> CHR ''+'' \<Longrightarrow> c \<notin> set (year_digits y)"
  by (simp add: year_digits_def padStart_avoid)

section \<open>The ISO date determines the day\<close>

lemma iso_date_inj:
  assumes "iso_date t = iso_date u"
  shows "Day t = Day u"
proof -
  have lm: "length (two_digits (MonthFromTime v + 1)) = 2" for v
    using MonthFromTime_bounds[of v] by (intro two_digits_length) simp_all
  have ld: "length (two_digits (DateFromTime v)) = 2" for v
    using DateFromTime_bounds[of v] by (intro two_digits_length) simp_all
  from assms have
    "year_digits (YearFromTime t) @
       (''-'' @ two_digits (MonthFromTime t + 1) @ ''-'' @ two_digits (DateFromTime t)) =
     year_digits (YearFromTime u) @
       (''-'' @ two_digits (MonthFromTime u + 1) @ ''-'' @ two_digits (DateFromTime u))"
    by (simp add: iso_date_def)
  then have y: "year_digits (YearFromTime t) = year_digits (YearFromTime u)"
    and r: "two_digits (MonthFromTime t + 1) @ (''-'' @ two_digits (DateFromTime t)) =
            two_digits (MonthFromTime u + 1) @ (''-'' @ two_digits (DateFromTime u))"
    by (simp_all add: append_eq_append_conv lm ld)
  from r have m: "two_digits (MonthFromTime t + 1) = two_digits (MonthFromTime u + 1)"
    and d: "two_digits (DateFromTime t) = two_digits (DateFromTime u)"
    by (simp_all add: append_eq_append_conv lm ld)
  have "YearFromTime t = YearFromTime u"
    using y by (rule year_digits_inj)
  moreover have "MonthFromTime t + 1 = MonthFromTime u + 1"
    using MonthFromTime_bounds[of t] MonthFromTime_bounds[of u] m by (intro two_digits_inj) simp_all
  moreover have "DateFromTime t = DateFromTime u"
    using DateFromTime_bounds[of t] DateFromTime_bounds[of u] d by (intro two_digits_inj) simp_all
  ultimately show ?thesis
    by (intro fields_determine_Day) simp_all
qed

lemma iso_date_Day: "Day t = Day u \<Longrightarrow> iso_date t = iso_date u"
  using fields_from_Day[of t u] by (simp add: iso_date_def)

lemma iso_date_avoid:
  "c \<notin> set ''0123456789'' \<Longrightarrow> c \<noteq> CHR ''-'' \<Longrightarrow> c \<noteq> CHR ''+'' \<Longrightarrow> c \<notin> set (iso_date t)"
  by (simp add: iso_date_def year_digits_avoid two_digits_avoid)

lemma split_0_iso: "split_0 CHR ''T'' (iso_date t @ CHR ''T'' # rest) = iso_date t"
proof -
  have "CHR ''T'' \<notin> set (iso_date t)"
    by (rule iso_date_avoid) simp_all
  then have "\<forall>c\<in>set (iso_date t). c \<noteq> CHR ''T''"
    by blast
  then show ?thesis
    by (simp add: split_0_def takeWhile_append2)
qed

section \<open>Facts about the day key and the loop\<close>

lemma valid_time_iff:
  "valid_time t \<longleftrightarrow> (\<exists>n. t = Finite n \<and> \<bar>n * 1000\<bar> \<le> 8640000000000000)"
  by (cases t) (simp_all add: valid_time_def new_Date_def TimeClip_def)

lemma new_Date_valid:
  "valid_time (Finite n) \<Longrightarrow> new_Date (Finite (n * 1000)) = Some (n * 1000)"
  by (simp add: valid_time_def new_Date_def TimeClip_def split: if_splits)

lemma new_Date_invalid: "\<not> valid_time t \<Longrightarrow> new_Date (times_1000 t) = None"
  by (simp add: valid_time_def)

lemma dateStr_valid:
  "time c = Finite n \<Longrightarrow> valid_time (Finite n) \<Longrightarrow> dateStr c = Inr (iso_date (n * 1000))"
  by (simp add: dateStr_def new_Date_valid toISOString_def split_0_iso)

lemma dateStr_invalid: "\<not> valid_time (time c) \<Longrightarrow> dateStr c = Inl RangeError"
  by (simp add: dateStr_def new_Date_invalid toISOString_def)

lemma dateStr_time: "time c = time c' \<Longrightarrow> dateStr c = dateStr c'"
  by (simp add: dateStr_def)

lemma dateStr_Inr_ex: "valid_time (time c) \<Longrightarrow> \<exists>k. dateStr c = Inr k"
  by (auto simp: valid_time_iff dest: dateStr_valid)

text \<open>Two valid candles have the same day key exactly when they lie on the same UTC day.\<close>

lemma dateStr_eq_iff_Day:
  assumes "time c = Finite n" "valid_time (Finite n)" "time c' = Finite n'" "valid_time (Finite n')"
  shows "dateStr c = dateStr c' \<longleftrightarrow> Day (n * 1000) = Day (n' * 1000)"
  using assms iso_date_inj[of "n * 1000" "n' * 1000"] iso_date_Day[of "n * 1000" "n' * 1000"]
  by (auto simp: dateStr_valid)

lemma Day_mono: "t \<le> u \<Longrightarrow> Day t \<le> Day u"
  by (simp add: Day_def msPerDay_def zdiv_mono1)

lemma index_set_Suc:
  "{f i | i. i < Suc n \<and> P i} = (if P 0 then {f 0} else {}) \<union> {f (Suc j) | j. j < n \<and> P (Suc j)}"
proof -
  have "(\<exists>i. x = f i \<and> i < Suc n \<and> P i) \<longleftrightarrow>
        (x = f 0 \<and> P 0) \<or> (\<exists>j. x = f (Suc j) \<and> j < n \<and> P (Suc j))" for x
  proof
    assume "\<exists>i. x = f i \<and> i < Suc n \<and> P i"
    then obtain i where i: "x = f i" "i < Suc n" "P i" by blast
    then show "(x = f 0 \<and> P 0) \<or> (\<exists>j. x = f (Suc j) \<and> j < n \<and> P (Suc j))"
      by (cases i) auto
  next
    assume "(x = f 0 \<and> P 0) \<or> (\<exists>j. x = f (Suc j) \<and> j < n \<and> P (Suc j))"
    then show "\<exists>i. x = f i \<and> i < Suc n \<and> P i"
      by auto
  qed
  then show ?thesis
    by (auto split: if_splits)
qed

text \<open>
  What the loop leaves in the set, for candles that all convert: the times at the positions
  where the day key differs from \<open>lastDate\<close> as it stands there, which is the key of the
  candle before (and the initial \<open>lastDate\<close> at the first position).
\<close>

lemma forEach_candle_valid:
  assumes "\<forall>c\<in>set cs. valid_time (time c)"
  shows "forEach_candle cs days lastDate =
           (days \<union> {time (cs ! i) | i. i < length cs \<and>
                      Some (dateStr (cs ! i)) \<noteq>
                        (if i = 0 then map_option Inr lastDate else Some (dateStr (cs ! (i - 1))))},
            None)"
  using assms
proof (induction cs arbitrary: days lastDate)
  case Nil
  show ?case by simp
next
  case (Cons c cs)
  from Cons.prems obtain k where k: "dateStr c = Inr k"
    using dateStr_Inr_ex[of c] by auto
  have valid: "\<forall>c\<in>set cs. valid_time (time c)"
    using Cons.prems by simp
  let ?P = "\<lambda>i. Some (dateStr ((c # cs) ! i)) \<noteq>
                (if i = 0 then map_option Inr lastDate else Some (dateStr ((c # cs) ! (i - 1))))"
  let ?Q = "\<lambda>j. Some (dateStr (cs ! j)) \<noteq>
                (if j = 0 then map_option Inr (Some k) else Some (dateStr (cs ! (j - 1))))"
  have PQ: "?P (Suc j) = ?Q j" for j
    by (cases j) (simp_all add: k)
  have P0: "?P 0 \<longleftrightarrow> Some k \<noteq> lastDate"
    by (cases lastDate) (auto simp: k)
  have split: "{time ((c # cs) ! i) | i. i < length (c # cs) \<and> ?P i} =
               (if Some k \<noteq> lastDate then {time c} else {}) \<union>
               {time (cs ! j) | j. j < length cs \<and> ?Q j}"
    using index_set_Suc[of "\<lambda>i. time ((c # cs) ! i)" "length cs" ?P]
    unfolding PQ P0 by simp
  show ?case
  proof (cases "Some k \<noteq> lastDate")
    case True
    then have "forEach_candle (c # cs) days lastDate = forEach_candle cs (insert (time c) days) (Some k)"
      by (simp add: k)
    also have "\<dots> = (insert (time c) days \<union> {time (cs ! j) | j. j < length cs \<and> ?Q j}, None)"
      by (rule Cons.IH[OF valid])
    finally show ?thesis
      unfolding split using True by simp
  next
    case False
    then have l: "lastDate = Some k" by simp
    from False have "forEach_candle (c # cs) days lastDate = forEach_candle cs days lastDate"
      by (simp add: k)
    also have "\<dots> = (days \<union> {time (cs ! j) | j. j < length cs \<and> ?Q j}, None)"
      unfolding l by (rule Cons.IH[OF valid])
    finally show ?thesis
      unfolding split using False by simp
  qed
qed

text \<open>The loop stops at the first candle whose time does not convert.\<close>

lemma forEach_candle_invalid:
  assumes "\<exists>c\<in>set cs. \<not> valid_time (time c)"
  shows "snd (forEach_candle cs days lastDate) = Some RangeError"
  using assms
proof (induction cs arbitrary: days lastDate)
  case Nil
  then show ?case by simp
next
  case (Cons c cs)
  show ?case
  proof (cases "valid_time (time c)")
    case True
    then obtain k where k: "dateStr c = Inr k"
      using dateStr_Inr_ex by blast
    from True Cons.prems have "\<exists>c\<in>set cs. \<not> valid_time (time c)" by auto
    then show ?thesis
      using Cons.IH by (simp add: k)
  next
    case False
    then show ?thesis by (simp add: dateStr_invalid)
  qed
qed

lemma forEach_candle_subset:
  "fst (forEach_candle cs days lastDate) \<subseteq> days \<union> time ` set cs"
proof (induction cs arbitrary: days lastDate)
  case Nil
  show ?case by simp
next
  case (Cons c cs)
  show ?case
  proof (cases "dateStr c")
    case (Inl e)
    then show ?thesis by auto
  next
    case (Inr k)
    show ?thesis
      using Cons.IH[of "insert (time c) days" "Some k"] Cons.IH[of days lastDate]
      by (auto simp: Inr)
  qed
qed

section \<open>Facts about a run of the data effect\<close>

lemma reconcile_valid:
  assumes "seriesRef s \<noteq> None" "chartRef s = Some chart" "candles \<noteq> []"
    "\<forall>c\<in>set candles. valid_time (time c)"
  shows "reconcile s candles symbol =
           (s\<lparr>newDayTimestamps := fst (forEach_candle candles {} None),
              chartRef := Some (if prevSymbolRef s \<noteq> Some symbol
                                then applyOptions_autoScale
                                       (fitContent (setData (map formatted_candle candles) chart))
                                else setData (map formatted_candle candles) chart),
              hasData := True, prevSymbolRef := Some symbol\<rparr>, None)"
proof -
  obtain days where d: "forEach_candle candles {} None = (days, None)"
    using forEach_candle_valid[OF assms(4)] by blast
  from assms(1) obtain series where "seriesRef s = Some series" by blast
  then show ?thesis
    using assms(2,3) by (simp add: reconcile_def d Let_def)
qed

lemma reconcile_invalid:
  assumes "seriesRef s \<noteq> None" "chartRef s \<noteq> None" "candles \<noteq> []"
    "\<exists>c\<in>set candles. \<not> valid_time (time c)"
  shows "reconcile s candles symbol =
           (s\<lparr>newDayTimestamps := fst (forEach_candle candles {} None)\<rparr>, Some RangeError)"
proof -
  obtain days where d: "forEach_candle candles {} None = (days, Some RangeError)"
    using forEach_candle_invalid[OF assms(4), of "{}" None]
    by (cases "forEach_candle candles {} None") simp
  from assms(1,2) obtain series chart where "seriesRef s = Some series" "chartRef s = Some chart"
    by blast
  then show ?thesis
    using assms(3) by (simp add: reconcile_def d)
qed

lemma boundaries_valid:
  assumes "candles \<noteq> []" "\<forall>c\<in>set candles. valid_time (time c)"
  shows "fst (forEach_candle candles {} None) =
           {time (candles ! i) | i. i < length candles \<and>
              (i = 0 \<or> dateStr (candles ! i) \<noteq> dateStr (candles ! (i - 1)))}"
proof -
  have "(Some (dateStr (candles ! i)) \<noteq>
          (if i = 0 then map_option Inr None else Some (dateStr (candles ! (i - 1))))) =
        (i = 0 \<or> dateStr (candles ! i) \<noteq> dateStr (candles ! (i - 1)))" for i
    by simp
  then show ?thesis
    unfolding forEach_candle_valid[OF assms(2)] by simp
qed

lemma ascending_nth:
  assumes "ascending candles" "i \<le> j" "j < length candles"
    "time (candles ! i) = Finite a" "time (candles ! j) = Finite b"
  shows "a \<le> b"
proof (cases "i = j")
  case True
  with assms show ?thesis by simp
next
  case False
  with assms(2) have "i < j" by simp
  from assms(1) have "sorted_wrt (\<lambda>a b. number_le (time a) (time b)) candles"
    by (simp only: ascending_def)
  from sorted_wrt_nth_less[where P = "\<lambda>a b. number_le (time a) (time b)", OF this \<open>i < j\<close> assms(3)]
  have "number_le (time (candles ! i)) (time (candles ! j))" .
  with assms(4,5) show ?thesis by simp
qed

text \<open>Between two candles of one UTC day, every candle of an ascending sequence is of
  that day.\<close>

lemma same_day_between:
  assumes valid: "\<forall>c\<in>set candles. valid_time (time c)" and asc: "ascending candles"
    and ij: "i < j" "j < length candles"
    and eq: "dateStr (candles ! i) = dateStr (candles ! j)"
  shows "dateStr (candles ! (j - 1)) = dateStr (candles ! j)"
proof -
  have v: "valid_time (time (candles ! m))" if "m < length candles" for m
    using valid that by simp
  from ij have lens: "i < length candles" "j - 1 < length candles" by simp_all
  obtain a where a: "time (candles ! i) = Finite a" "valid_time (Finite a)"
    using v[OF lens(1)] by (auto simp: valid_time_iff)
  obtain b where b: "time (candles ! (j - 1)) = Finite b" "valid_time (Finite b)"
    using v[OF lens(2)] by (auto simp: valid_time_iff)
  obtain c where c: "time (candles ! j) = Finite c" "valid_time (Finite c)"
    using v[OF ij(2)] by (auto simp: valid_time_iff)
  have "a \<le> b"
    using ij by (intro ascending_nth[OF asc _ lens(2) a(1) b(1)]) simp
  moreover have "b \<le> c"
    by (intro ascending_nth[OF asc _ ij(2) b(1) c(1)]) simp
  ultimately have "Day (a * 1000) \<le> Day (b * 1000)" "Day (b * 1000) \<le> Day (c * 1000)"
    by (simp_all add: Day_mono)
  moreover have "Day (a * 1000) = Day (c * 1000)"
    using eq dateStr_eq_iff_Day[OF a c] by simp
  ultimately have "Day (b * 1000) = Day (c * 1000)"
    by simp
  then show ?thesis
    using dateStr_eq_iff_Day[OF b c] by simp
qed

lemma boundaries_card:
  assumes ne: "candles \<noteq> []" and valid: "\<forall>c\<in>set candles. valid_time (time c)"
    and asc: "ascending candles"
  defines "B \<equiv> fst (forEach_candle candles {} None)"
  shows "time (hd candles) \<in> B" "1 \<le> card B" "card B \<le> card (dateStr ` set candles)"
proof -
  have B: "B = {time (candles ! i) | i. i < length candles \<and>
              (i = 0 \<or> dateStr (candles ! i) \<noteq> dateStr (candles ! (i - 1)))}"
    unfolding B_def by (rule boundaries_valid[OF ne valid])
  have sub: "B \<subseteq> time ` set candles"
    unfolding B_def using forEach_candle_subset[of candles "{}" None] by simp
  then have fin: "finite B"
    by (rule finite_subset) simp
  show first: "time (hd candles) \<in> B"
    unfolding B using ne by (auto simp: hd_conv_nth)
  then have "B \<noteq> {}" by blast
  with fin have "0 < card B" by (simp add: card_gt_0_iff)
  then show "1 \<le> card B" by simp
  let ?key = "\<lambda>t. dateStr (candle_at t)"
  have key: "?key (time c) = dateStr c" for c
    by (rule dateStr_time) (simp add: candle_at_def)
  have inj: "inj_on ?key B"
  proof (rule inj_onI)
    fix t u
    assume "t \<in> B" "u \<in> B" and k: "?key t = ?key u"
    then obtain i j where i: "t = time (candles ! i)" "i < length candles"
        "i = 0 \<or> dateStr (candles ! i) \<noteq> dateStr (candles ! (i - 1))"
      and j: "u = time (candles ! j)" "j < length candles"
        "j = 0 \<or> dateStr (candles ! j) \<noteq> dateStr (candles ! (j - 1))"
      unfolding B by blast
    from k have e: "dateStr (candles ! i) = dateStr (candles ! j)"
      unfolding i(1) j(1) key .
    have "\<not> i < j"
    proof
      assume "i < j"
      then have "dateStr (candles ! (j - 1)) = dateStr (candles ! j)"
        using same_day_between[OF valid asc _ j(2) e] by simp
      with j(3) \<open>i < j\<close> show False by simp
    qed
    moreover have "\<not> j < i"
    proof
      assume "j < i"
      then have "dateStr (candles ! (i - 1)) = dateStr (candles ! i)"
        using same_day_between[OF valid asc _ i(2) e[symmetric]] by simp
      with i(3) \<open>j < i\<close> show False by simp
    qed
    ultimately have "i = j" by simp
    then show "t = u" by (simp add: i(1) j(1))
  qed
  have "?key ` B \<subseteq> dateStr ` set candles"
  proof
    fix k assume "k \<in> ?key ` B"
    then obtain t where "t \<in> B" "k = ?key t" by blast
    with sub obtain c where "c \<in> set candles" "t = time c" by blast
    with \<open>k = ?key t\<close> show "k \<in> dateStr ` set candles" by (simp add: key)
  qed
  then show "card B \<le> card (dateStr ` set candles)"
    using inj by (intro card_inj_on_le[of ?key]) simp_all
qed


lemma reconcile_early:
  assumes "seriesRef s = None \<or> chartRef s = None \<or> candles = []"
  shows "reconcile s candles symbol = (s\<lparr>hasData := False\<rparr>, None)"
  using assms by (auto simp: reconcile_def split: option.splits)

text \<open>One run on convertible candles with a live chart: what reaches the engine.\<close>

lemma reconcile_calls:
  assumes "seriesRef s \<noteq> None" "chartRef s = Some chart" "candles \<noteq> []"
    "\<forall>c\<in>set candles. valid_time (time c)"
  shows "\<exists>chart'. chartRef (fst (reconcile s candles symbol)) = Some chart' \<and>
           series_data chart' = map formatted_candle candles \<and>
           (prevSymbolRef s \<noteq> Some symbol \<longrightarrow>
              calls chart' =
                calls chart @ [SetData (map formatted_candle candles), FitContent, ApplyAutoScale] \<and>
              viewport chart' = (Some (0, int (length candles) - 1), True)) \<and>
           (prevSymbolRef s = Some symbol \<longrightarrow>
              calls chart' = calls chart @ [SetData (map formatted_candle candles)] \<and>
              viewport chart' = viewport chart)"
    and "prevSymbolRef (fst (reconcile s candles symbol)) = Some symbol"
    and "seriesRef (fst (reconcile s candles symbol)) = seriesRef s"
    and "snd (reconcile s candles symbol) = None"
  using assms(3)
  by (simp_all add: reconcile_valid[OF assms] setData_def fitContent_def
      applyOptions_autoScale_def viewport_def)

text \<open>Runs that return early or throw leave the chart and the recorded symbol as they were.\<close>

lemma reconcile_all_idle:
  assumes "\<forall>run\<in>set earlier. fst run = [] \<or> (\<exists>c\<in>set (fst run). \<not> valid_time (time c))"
  shows "chartRef (reconcile_all s earlier) = chartRef s \<and>
         seriesRef (reconcile_all s earlier) = seriesRef s \<and>
         prevSymbolRef (reconcile_all s earlier) = prevSymbolRef s"
  using assms
proof (induction earlier arbitrary: s)
  case Nil
  show ?case by simp
next
  case (Cons run earlier)
  obtain candles symbol where run: "run = (candles, symbol)"
    by (cases run)
  define s1 where "s1 = fst (reconcile s candles symbol)"
  have step: "chartRef s1 = chartRef s \<and> seriesRef s1 = seriesRef s \<and>
              prevSymbolRef s1 = prevSymbolRef s"
  proof (cases "seriesRef s = None \<or> chartRef s = None \<or> candles = []")
    case True
    then show ?thesis
      by (simp add: s1_def reconcile_early)
  next
    case False
    moreover from False Cons.prems have "\<exists>c\<in>set candles. \<not> valid_time (time c)"
      by (simp add: run)
    ultimately show ?thesis
      by (simp add: s1_def reconcile_invalid)
  qed
  have "chartRef (reconcile_all s1 earlier) = chartRef s1 \<and>
        seriesRef (reconcile_all s1 earlier) = seriesRef s1 \<and>
        prevSymbolRef (reconcile_all s1 earlier) = prevSymbolRef s1"
    by (rule Cons.IH) (use Cons.prems in simp)
  with step show ?case
    by (simp add: run s1_def)
qed

text \<open>
  Only convertible times get into the set and into the chart: a time is added after its
  conversion has succeeded, and \<open>setData\<close> is reached only when every conversion has.
\<close>

lemma forEach_candle_days_valid:
  assumes "\<forall>t\<in>days. valid_time t"
  shows "\<forall>t\<in>fst (forEach_candle cs days lastDate). valid_time t"
  using assms
proof (induction cs arbitrary: days lastDate)
  case Nil
  then show ?case by simp
next
  case (Cons c cs)
  show ?case
  proof (cases "valid_time (time c)")
    case True
    then obtain k where k: "dateStr c = Inr k"
      using dateStr_Inr_ex by blast
    from True Cons.prems have "\<forall>t\<in>insert (time c) days. valid_time t"
      by simp
    then have a: "\<forall>t\<in>fst (forEach_candle cs (insert (time c) days) (Some k)). valid_time t"
      by (rule Cons.IH)
    have b: "\<forall>t\<in>fst (forEach_candle cs days lastDate). valid_time t"
      by (rule Cons.IH[OF Cons.prems])
    show ?thesis
    proof (cases "Some k \<noteq> lastDate")
      case True
      then show ?thesis using a by (simp add: k)
    next
      case False
      then show ?thesis using b by (simp add: k)
    qed
  next
    case False
    then show ?thesis
      using Cons.prems by (simp add: dateStr_invalid)
  qed
qed

lemma reconcile_days_valid:
  assumes "seriesRef s \<noteq> None" "chartRef s \<noteq> None" "candles \<noteq> []"
  shows "\<forall>t\<in>newDayTimestamps (fst (reconcile s candles symbol)). valid_time t"
proof -
  have days: "\<forall>t\<in>fst (forEach_candle candles {} None). valid_time t"
    by (rule forEach_candle_days_valid) simp
  show ?thesis
  proof (cases "\<forall>c\<in>set candles. valid_time (time c)")
    case True
    from assms(2) obtain chart where "chartRef s = Some chart" by blast
    then show ?thesis
      using reconcile_valid[OF assms(1) _ assms(3) True] days by simp
  next
    case False
    then show ?thesis
      using reconcile_invalid[OF assms] days by simp
  qed
qed

lemma reconcile_pushed_valid:
  assumes "chartRef s = Some chart" "chartRef (fst (reconcile s candles symbol)) = Some chart'"
    "chart' \<noteq> chart"
  shows "\<forall>d\<in>set (series_data chart'). valid_time (data_time d)"
proof (cases "seriesRef s = None \<or> candles = []")
  case True
  then show ?thesis
    using assms reconcile_early[of s candles symbol] by auto
next
  case False
  then have live: "seriesRef s \<noteq> None" "chartRef s \<noteq> None" "candles \<noteq> []"
    using assms(1) by simp_all
  show ?thesis
  proof (cases "\<forall>c\<in>set candles. valid_time (time c)")
    case True
    from reconcile_calls(1)[OF live(1) assms(1) live(3) True, of symbol] assms(2)
    have "series_data chart' = map formatted_candle candles"
      by auto
    with True show ?thesis
      by (simp add: formatted_candle_def)
  next
    case False
    then show ?thesis
      using reconcile_invalid[OF live] assms by simp
  qed
qed

section \<open>Facts about the tick labels\<close>

lemma month_cases:
  "0 \<le> m \<Longrightarrow> m \<le> 11 \<Longrightarrow> m \<in> {0, 1, 2, 3, 4, 5, 6, 7, 8, 9, 10, 11 :: int}"
  by (simp only: insert_iff empty_iff) arith

lemma month_short_avoid:
  assumes "0 \<le> m" "m \<le> 11" "c \<notin> set ''JanFebMarAprMayJunJulAugSepOctNovDec''"
  shows "c \<notin> set (month_short m)"
  using month_cases[OF assms(1,2)] assms(3)
  by (auto simp: month_short_def)

lemma clock_label_colon: "is_clock_label s \<Longrightarrow> CHR '':'' \<in> set s"
  by (auto simp: is_clock_label_def)

lemma month_day_label_no_colon: "is_month_day_label s \<Longrightarrow> CHR '':'' \<notin> set s"
proof -
  assume "is_month_day_label s"
  then obtain m d where m: "0 \<le> m" "m \<le> 11" and s: "s = month_short m @ '' '' @ dec (nat d)"
    by (auto simp: is_month_day_label_def)
  have "CHR '':'' \<notin> set (month_short m)"
    using m by (rule month_short_avoid) simp
  moreover have "CHR '':'' \<notin> set (dec (nat d))"
    by (rule dec_avoid) simp
  ultimately show ?thesis
    by (simp add: s)
qed

lemma clock_label_avoid:
  assumes "is_clock_label s" "c \<notin> set ''0123456789'' " "c \<notin> set '': APM''"
  shows "c \<notin> set s"
proof -
  from assms(1) obtain h m ampm where ampm: "ampm = ''AM'' \<or> ampm = ''PM''"
    and s: "s = dec (nat h) @ '':'' @ two_digits m @ '' '' @ ampm"
    by (auto simp: is_clock_label_def)
  have "c \<notin> set (dec (nat h))" "c \<notin> set (two_digits m)"
    using assms(2) by (simp_all add: dec_avoid two_digits_avoid)
  moreover have "c \<notin> set ampm"
    using ampm assms(3) by auto
  ultimately show ?thesis
    using assms(3) by (simp add: s)
qed

text \<open>The two branches of the formatter on a convertible time.\<close>

lemma tick_boundary:
  assumes "valid_time (Finite n)" "Finite n \<in> newDayTimestamps s"
  shows "tickMarkFormatter tza s (Finite n) =
           month_short (MonthFromTime (LocalTime tza (n * 1000))) @ '' '' @
           dec (nat (DateFromTime (LocalTime tza (n * 1000))))"
proof -
  have "\<not> DateFromTime (LocalTime tza (n * 1000)) < 0"
    using DateFromTime_bounds(1)[of "LocalTime tza (n * 1000)"] by simp
  then show ?thesis
    using assms
    by (simp add: tickMarkFormatter_def new_Date_valid toLocaleString_month_short_def getDate_def
        getHours_def getMinutes_def)
qed

lemma tick_clock:
  assumes "valid_time (Finite n)" "Finite n \<notin> newDayTimestamps s"
  shows "tickMarkFormatter tza s (Finite n) =
           dec (nat (if HourFromTime (LocalTime tza (n * 1000)) mod 12 = 0 then 12
                     else HourFromTime (LocalTime tza (n * 1000)) mod 12)) @ '':'' @
           two_digits (MinFromTime (LocalTime tza (n * 1000))) @ '' '' @
           (if 12 \<le> HourFromTime (LocalTime tza (n * 1000)) then ''PM'' else ''AM'')"
proof -
  define h where "h = HourFromTime (LocalTime tza (n * 1000))"
  define m where "m = MinFromTime (LocalTime tza (n * 1000))"
  have h: "0 \<le> h" "h < 24" and m: "0 \<le> m" "m < 60"
    using HourFromTime_bounds[of "LocalTime tza (n * 1000)"]
      MinFromTime_bounds[of "LocalTime tza (n * 1000)"]
    by (simp_all add: h_def m_def)
  have rem: "number_rem (Finite h) 12 = Finite (h mod 12)"
    using h by (cases "h = 0") (simp_all add: sgn_if)
  have hm: "0 \<le> h mod 12"
    by simp
  have "tickMarkFormatter tza s (Finite n) =
          toString (number_or (number_rem (Finite h) 12) (Finite 12)) @ '':'' @
          padStart 2 CHR ''0'' (toString (Finite m)) @ '' '' @
          (if number_ge (Finite h) 12 then ''PM'' else ''AM'')"
    using assms
    by (simp add: tickMarkFormatter_def new_Date_valid getHours_def getMinutes_def h_def m_def Let_def)
  also have "\<dots> = dec (nat (if h mod 12 = 0 then 12 else h mod 12)) @ '':'' @ two_digits m @ '' '' @
                   (if 12 \<le> h then ''PM'' else ''AM'')"
    unfolding rem using m(1) hm by (simp add: two_digits_def)
  finally show ?thesis
    unfolding h_def m_def .
qed

section \<open>The concrete inputs evaluated\<close>

lemma far_candle_invalid: "\<not> valid_time (time far_candle)"
  by (simp add: far_candle_def candle_at_def valid_time_iff)

lemma scenario_A_valid: "\<forall>c\<in>set scenario_A. valid_time (time c)"
  by (simp add: scenario_A_def candle_at_def valid_time_iff)

lemma scenario_A_times:
  "valid_time (Finite 1700000000)" "valid_time (Finite 1700003600)"
  "valid_time (Finite 1700086400)"
  by (simp_all add: valid_time_iff)

lemma next_day_time: "valid_time (Finite 1700090000)"
  by (simp add: valid_time_iff)

lemma scenario_A_ascending: "ascending scenario_A"
  by (simp add: scenario_A_def candle_at_def ascending_def)

lemma scenario_A_days:
  "fst (forEach_candle scenario_A {} None) = {Finite 1700000000, Finite 1700086400}"
  by code_simp

lemma next_day_valid: "\<forall>c\<in>set next_day. valid_time (time c)"
  by (simp add: next_day_def candle_at_def valid_time_iff)

lemma next_day_days: "fst (forEach_candle next_day {} None) = {Finite 1700090000}"
  by code_simp

lemma after_AAPL_eq:
  "after_AAPL =
      live_state\<lparr>newDayTimestamps := {Finite 1700000000, Finite 1700086400},
        chartRef := Some (applyOptions_autoScale
                           (fitContent (setData (map formatted_candle scenario_A) createChart))),
        hasData := True, prevSymbolRef := Some ''AAPL''\<rparr>"
proof -
  have "scenario_A \<noteq> []"
    by (simp add: scenario_A_def)
  then show ?thesis
    unfolding after_AAPL_def using scenario_A_valid
    by (simp add: reconcile_valid scenario_A_days)
qed

lemma after_AAPL_refs [simp]:
  "seriesRef after_AAPL = Some CandlestickSeries"
  "chartRef after_AAPL =
     Some (applyOptions_autoScale (fitContent (setData (map formatted_candle scenario_A) createChart)))"
  "prevSymbolRef after_AAPL = Some ''AAPL''"
  "newDayTimestamps after_AAPL = {Finite 1700000000, Finite 1700086400}"
  by (simp_all add: after_AAPL_eq)

lemma tick_1700003600:
  "tickMarkFormatter utc_zone after_AAPL (Finite 1700003600) = ''11:13 PM''"
  by code_simp

lemma tick_1700000000:
  "tickMarkFormatter utc_zone after_AAPL (Finite 1700000000) = ''Nov 14''"
  by code_simp

lemma fields_1700000000:
  "MonthFromTime (LocalTime utc_zone 1700000000000) = 10"
  "DateFromTime (LocalTime utc_zone 1700000000000) = 14"
  by code_simp+

lemma fields_1700003600:
  "HourFromTime (LocalTime utc_zone 1700003600000) = 23"
  "MinFromTime (LocalTime utc_zone 1700003600000) = 13"
  by (simp_all add: HourFromTime_def MinFromTime_def LocalTime_def utc_zone_def msPerHour_def
      msPerMinute_def)


section \<open>Properties\<close>

subsection \<open>Day boundaries\<close>

text \<open>
  C1, as the code has it. For a run of the data effect with a live chart on a non-empty
  candle sequence in ascending order of time, all of whose times are convertible, the
  day-boundary set afterwards consists of exactly the times at the positions whose UTC day
  key differs from the key of the candle before, the first position included. It
  contains the first candle's time, and its size is at least one and at most the number
  of distinct UTC day keys in the sequence.
\<close>

theorem C1_day_boundaries:
  assumes "seriesRef s \<noteq> None" "chartRef s \<noteq> None" "candles \<noteq> []" "ascending candles"
    "\<forall>c\<in>set candles. valid_time (time c)"
  shows "newDayTimestamps (fst (reconcile s candles symbol)) =
           {time (candles ! i) | i. i < length candles \<and>
              (i = 0 \<or> dateStr (candles ! i) \<noteq> dateStr (candles ! (i - 1)))} \<and>
         time (hd candles) \<in> newDayTimestamps (fst (reconcile s candles symbol)) \<and>
         1 \<le> card (newDayTimestamps (fst (reconcile s candles symbol))) \<and>
         card (newDayTimestamps (fst (reconcile s candles symbol))) \<le> card (dateStr ` set candles)"
proof -
  from assms(2) obtain chart where "chartRef s = Some chart" by blast
  then have "newDayTimestamps (fst (reconcile s candles symbol)) = fst (forEach_candle candles {} None)"
    using reconcile_valid[OF assms(1) _ assms(3,5)] by simp
  then show ?thesis
    using boundaries_valid[OF assms(3,5)] boundaries_card[OF assms(3,5,4)] by simp
qed

theorem C1_day_boundaries_witness:
  "seriesRef live_state \<noteq> None \<and> chartRef live_state \<noteq> None \<and> scenario_A \<noteq> [] \<and>
   ascending scenario_A \<and> valid_time (Finite 1700000000) \<and> valid_time (Finite 1700003600) \<and>
   valid_time (Finite 1700086400) \<and>
   newDayTimestamps (fst (reconcile live_state scenario_A ''AAPL'')) =
     {Finite 1700000000, Finite 1700086400} \<and>
   time (hd scenario_A) \<in> newDayTimestamps (fst (reconcile live_state scenario_A ''AAPL'')) \<and>
   1 \<le> card (newDayTimestamps (fst (reconcile live_state scenario_A ''AAPL''))) \<and>
   card (newDayTimestamps (fst (reconcile live_state scenario_A ''AAPL'')))
     \<le> card (dateStr ` set scenario_A)"
proof -
  have ne: "scenario_A \<noteq> []"
    by (simp add: scenario_A_def)
  have refs: "seriesRef live_state \<noteq> None" "chartRef live_state \<noteq> None"
    by simp_all
  have days: "newDayTimestamps (fst (reconcile live_state scenario_A ''AAPL'')) =
          {Finite 1700000000, Finite 1700086400}"
    using scenario_A_valid ne by (simp add: reconcile_valid scenario_A_days)
  from C1_day_boundaries [OF refs ne scenario_A_ascending scenario_A_valid, of "''AAPL''"]
  have "time (hd scenario_A) \<in> newDayTimestamps (fst (reconcile live_state scenario_A ''AAPL''))"
    "1 \<le> card (newDayTimestamps (fst (reconcile live_state scenario_A ''AAPL'')))"
    "card (newDayTimestamps (fst (reconcile live_state scenario_A ''AAPL'')))
       \<le> card (dateStr ` set scenario_A)"
    by blast+
  with refs ne scenario_A_ascending scenario_A_times days show ?thesis
    by blast
qed

text \<open>
  Without the condition on the times the statement fails: on a candle whose time is
  outside the range of \<open>Date\<close>, \<open>toISOString\<close> throws in the loop, and the set, cleared
  before the loop, is empty.
\<close>

theorem C1_counterexample:
  "seriesRef live_state \<noteq> None \<and> chartRef live_state \<noteq> None \<and> ascending [far_candle] \<and>
   snd (reconcile live_state [far_candle] ''AAPL'') = Some RangeError \<and>
   time (hd [far_candle]) \<notin> newDayTimestamps (fst (reconcile live_state [far_candle] ''AAPL'')) \<and>
   card (newDayTimestamps (fst (reconcile live_state [far_candle] ''AAPL''))) = 0"
  using far_candle_invalid
  by (simp add: reconcile_invalid dateStr_invalid ascending_def)

subsection \<open>The early return of the data effect\<close>

text \<open>
  C2. When the series handle or the chart handle is missing, or the candle sequence is
  empty, a run of the data effect sets \<open>hasData\<close> to false and does nothing else: the
  chart, and with it the log of engine calls, is the one from before, and no exception
  leaves the effect.
\<close>

theorem C2_early_return:
  assumes "seriesRef s = None \<or> chartRef s = None \<or> candles = []"
  shows "reconcile s candles symbol = (s\<lparr>hasData := False\<rparr>, None) \<and>
         hasData (fst (reconcile s candles symbol)) = False \<and>
         chartRef (fst (reconcile s candles symbol)) = chartRef s \<and>
         snd (reconcile s candles symbol) = None"
  using reconcile_early[OF assms] by simp

theorem C2_early_return_witness:
  "(seriesRef live_state = None \<or> chartRef live_state = None \<or> ([] :: Candle list) = []) \<and>
   hasData (fst (reconcile live_state [] ''AAPL'')) = False \<and>
   map_option calls (chartRef (fst (reconcile live_state [] ''AAPL''))) = Some [] \<and>
   snd (reconcile live_state [] ''AAPL'') = None"
  using C2_early_return [of live_state "[]" "''AAPL''"]
  by (simp add: createChart_def)

subsection \<open>The view reset on a change of symbol\<close>

text \<open>
  C3, as the code has it. Take two runs of the data effect in a row, each with a live
  chart and a non-empty sequence of candles with convertible times. The first records its
  symbol. If the symbol of the second differs, the second makes, after \<open>setData\<close>, exactly
  one call of \<open>fitContent\<close> and one of the price-scale \<open>autoScale\<close>, and records the new
  symbol; if the symbol is the same, its only engine call is \<open>setData\<close> and the viewport
  is the one from before.
\<close>

theorem C3_symbol_reset:
  assumes "seriesRef s \<noteq> None" "chartRef s \<noteq> None" "candles1 \<noteq> []" "candles2 \<noteq> []"
    "\<forall>c\<in>set candles1. valid_time (time c)" "\<forall>c\<in>set candles2. valid_time (time c)"
  shows "prevSymbolRef (fst (reconcile s candles1 symbol1)) = Some symbol1 \<and>
         prevSymbolRef (fst (reconcile (fst (reconcile s candles1 symbol1)) candles2 symbol2)) =
           Some symbol2 \<and>
         (\<exists>chart1 chart2.
            chartRef (fst (reconcile s candles1 symbol1)) = Some chart1 \<and>
            chartRef (fst (reconcile (fst (reconcile s candles1 symbol1)) candles2 symbol2)) =
              Some chart2 \<and>
            (symbol2 \<noteq> symbol1 \<longrightarrow>
               calls chart2 =
                 calls chart1 @ [SetData (map formatted_candle candles2), FitContent, ApplyAutoScale]) \<and>
            (symbol2 = symbol1 \<longrightarrow>
               calls chart2 = calls chart1 @ [SetData (map formatted_candle candles2)] \<and>
               viewport chart2 = viewport chart1))"
proof -
  let ?s1 = "fst (reconcile s candles1 symbol1)"
  from assms(2) obtain chart where c: "chartRef s = Some chart" by blast
  from reconcile_calls[OF assms(1) c assms(3,5), of symbol1]
  obtain chart1 where c1: "chartRef ?s1 = Some chart1"
    and p1: "prevSymbolRef ?s1 = Some symbol1" and r1: "seriesRef ?s1 \<noteq> None"
    using assms(1) by auto
  from reconcile_calls[OF r1 c1 assms(4,6), of symbol2]
  obtain chart2 where "chartRef (fst (reconcile ?s1 candles2 symbol2)) = Some chart2"
    "symbol2 \<noteq> symbol1 \<longrightarrow>
       calls chart2 = calls chart1 @ [SetData (map formatted_candle candles2), FitContent, ApplyAutoScale]"
    "symbol2 = symbol1 \<longrightarrow>
       calls chart2 = calls chart1 @ [SetData (map formatted_candle candles2)] \<and>
       viewport chart2 = viewport chart1"
    and "prevSymbolRef (fst (reconcile ?s1 candles2 symbol2)) = Some symbol2"
    unfolding p1 by auto
  with c1 p1 show ?thesis by blast
qed

theorem C3_symbol_reset_witness:
  "seriesRef live_state \<noteq> None \<and> chartRef live_state \<noteq> None \<and> scenario_A \<noteq> [] \<and>
   next_day \<noteq> [] \<and> valid_time (Finite 1700000000) \<and> valid_time (Finite 1700003600) \<and>
   valid_time (Finite 1700086400) \<and>
   valid_time (Finite 1700090000) \<and> ''MSFT'' \<noteq> ''AAPL'' \<and>
   prevSymbolRef (fst (reconcile live_state scenario_A ''AAPL'')) = Some ''AAPL'' \<and>
   prevSymbolRef (fst (reconcile (fst (reconcile live_state scenario_A ''AAPL'')) next_day ''MSFT'')) =
     Some ''MSFT'' \<and>
   map_option calls
     (chartRef (fst (reconcile (fst (reconcile live_state scenario_A ''AAPL'')) next_day ''MSFT''))) =
     Some ([SetData (map formatted_candle scenario_A), FitContent, ApplyAutoScale] @
           [SetData (map formatted_candle next_day), FitContent, ApplyAutoScale])"
proof -
  have ne: "scenario_A \<noteq> []" "next_day \<noteq> []"
    by (simp_all add: scenario_A_def next_day_def)
  have refs: "seriesRef live_state \<noteq> None" "chartRef live_state \<noteq> None"
    by simp_all
  have first: "map_option calls (chartRef (fst (reconcile live_state scenario_A ''AAPL''))) =
      Some [SetData (map formatted_candle scenario_A), FitContent, ApplyAutoScale]"
    using after_AAPL_refs(2)
    by (simp add: after_AAPL_def applyOptions_autoScale_def fitContent_def setData_def
        createChart_def)
  from C3_symbol_reset [OF refs ne scenario_A_valid next_day_valid, of "''AAPL''" "''MSFT''"]
  have "prevSymbolRef (fst (reconcile live_state scenario_A ''AAPL'')) = Some ''AAPL''"
    "prevSymbolRef (fst (reconcile (fst (reconcile live_state scenario_A ''AAPL'')) next_day ''MSFT'')) =
       Some ''MSFT''"
    "map_option calls
       (chartRef (fst (reconcile (fst (reconcile live_state scenario_A ''AAPL'')) next_day ''MSFT''))) =
       Some ([SetData (map formatted_candle scenario_A), FitContent, ApplyAutoScale] @
             [SetData (map formatted_candle next_day), FitContent, ApplyAutoScale])"
    using first by auto
  with refs ne scenario_A_times next_day_time show ?thesis
    by simp
qed

text \<open>
  Without the condition on the times the statement fails: a second run on a candle
  outside the range of \<open>Date\<close> leaves the effect by the exception, before the comparison
  of symbols, so that nothing is reset and the old symbol stays recorded.
\<close>

theorem C3_counterexample:
  "seriesRef after_AAPL \<noteq> None \<and> chartRef after_AAPL \<noteq> None \<and> [far_candle] \<noteq> [] \<and>
   prevSymbolRef after_AAPL = Some ''AAPL'' \<and> ''MSFT'' \<noteq> ''AAPL'' \<and>
   chartRef (fst (reconcile after_AAPL [far_candle] ''MSFT'')) = chartRef after_AAPL \<and>
   prevSymbolRef (fst (reconcile after_AAPL [far_candle] ''MSFT'')) = Some ''AAPL''"
  using far_candle_invalid by (simp add: reconcile_invalid)

subsection \<open>Tick labels\<close>

text \<open>
  C4, as the code has it. Take a convertible time and the local time it stands for under
  the host's time-zone offset. When the time is in the day-boundary set, the tick label is
  the abbreviated English name of the month of that local time, a space, and its day of the
  month, where month and day are the ones that place the local day within its year; the
  label is a month-and-day label and not a clock label. Otherwise the label is the hour of
  that local time on the 12-hour clock (12 for the hours 0 and 12), a colon, its minutes
  in two digits, a space, and \<open>AM\<close> before noon or \<open>PM\<close> from noon on; the label is a
  clock label and not a month-and-day label. This holds for every offset of the local time
  zone. (The times that a run of the data effect puts into the set or into the chart are
  convertible: \<open>reconcile_days_valid\<close>, \<open>reconcile_pushed_valid\<close>.)
\<close>

theorem C4_tick_label:
  assumes "valid_time t"
  shows "\<exists>n. t = Finite n \<and>
           (t \<in> newDayTimestamps s \<longrightarrow>
              tickMarkFormatter tza s t =
                month_short (MonthFromTime (LocalTime tza (n * 1000))) @ '' '' @
                dec (nat (DateFromTime (LocalTime tza (n * 1000)))) \<and>
              Day (LocalTime tza (n * 1000)) =
                DayFromYear (YearFromTime (LocalTime tza (n * 1000))) +
                (DateFromTime (LocalTime tza (n * 1000)) - 1 +
                 days_before_month (MonthFromTime (LocalTime tza (n * 1000)))
                   (InLeapYear (LocalTime tza (n * 1000)))) \<and>
              is_month_day_label (tickMarkFormatter tza s t) \<and>
              \<not> is_clock_label (tickMarkFormatter tza s t)) \<and>
           (t \<notin> newDayTimestamps s \<longrightarrow>
              tickMarkFormatter tza s t =
                dec (nat (if HourFromTime (LocalTime tza (n * 1000)) mod 12 = 0 then 12
                          else HourFromTime (LocalTime tza (n * 1000)) mod 12)) @ '':'' @
                two_digits (MinFromTime (LocalTime tza (n * 1000))) @ '' '' @
                (if 12 \<le> HourFromTime (LocalTime tza (n * 1000)) then ''PM'' else ''AM'') \<and>
              is_clock_label (tickMarkFormatter tza s t) \<and>
              \<not> is_month_day_label (tickMarkFormatter tza s t) \<and>
              (HourFromTime (LocalTime tza (n * 1000)) = 0 \<or>
               HourFromTime (LocalTime tza (n * 1000)) = 12 \<longrightarrow>
                 take 3 (tickMarkFormatter tza s t) = ''12:''))"
proof -
  from assms obtain n where t: "t = Finite n" and v: "valid_time (Finite n)"
    by (auto simp: valid_time_iff)
  let ?lt = "LocalTime tza (n * 1000)"
  define h where "h = HourFromTime ?lt"
  have boundary: "tickMarkFormatter tza s t =
        month_short (MonthFromTime ?lt) @ '' '' @ dec (nat (DateFromTime ?lt)) \<and>
      Day ?lt = DayFromYear (YearFromTime ?lt) +
        (DateFromTime ?lt - 1 + days_before_month (MonthFromTime ?lt) (InLeapYear ?lt)) \<and>
      is_month_day_label (tickMarkFormatter tza s t) \<and>
      \<not> is_clock_label (tickMarkFormatter tza s t)"
    if b: "t \<in> newDayTimestamps s"
  proof -
    have l: "tickMarkFormatter tza s t =
        month_short (MonthFromTime ?lt) @ '' '' @ dec (nat (DateFromTime ?lt))"
      using tick_boundary[OF v, of s tza] b by (simp add: t)
    have md: "is_month_day_label (tickMarkFormatter tza s t)"
      unfolding l is_month_day_label_def
      using MonthFromTime_bounds[of ?lt] DateFromTime_bounds[of ?lt]
      by (intro bexI[of _ "MonthFromTime ?lt"] bexI[of _ "DateFromTime ?lt"]) simp_all
    have "\<not> is_clock_label (tickMarkFormatter tza s t)"
      using md clock_label_colon month_day_label_no_colon by blast
    with l md Day_from_fields[of ?lt] show ?thesis
      by blast
  qed
  have clock: "tickMarkFormatter tza s t =
        dec (nat (if h mod 12 = 0 then 12 else h mod 12)) @ '':'' @
        two_digits (MinFromTime ?lt) @ '' '' @ (if 12 \<le> h then ''PM'' else ''AM'') \<and>
      is_clock_label (tickMarkFormatter tza s t) \<and>
      \<not> is_month_day_label (tickMarkFormatter tza s t) \<and>
      (h = 0 \<or> h = 12 \<longrightarrow> take 3 (tickMarkFormatter tza s t) = ''12:'')"
    if nb: "t \<notin> newDayTimestamps s"
  proof -
    have l: "tickMarkFormatter tza s t =
        dec (nat (if h mod 12 = 0 then 12 else h mod 12)) @ '':'' @
        two_digits (MinFromTime ?lt) @ '' '' @ (if 12 \<le> h then ''PM'' else ''AM'')"
      using tick_clock[OF v, of s tza] nb by (simp add: t h_def)
    have dh: "1 \<le> (if h mod 12 = 0 then 12 else h mod 12)"
      "(if h mod 12 = 0 then 12 else h mod 12) \<le> 12"
    proof -
      have "0 \<le> h mod 12" "h mod 12 < 12" by simp_all
      then show "1 \<le> (if h mod 12 = 0 then 12 else h mod 12)"
        "(if h mod 12 = 0 then 12 else h mod 12) \<le> 12"
        by (auto simp del: pos_mod_sign pos_mod_bound)
    qed
    have cl: "is_clock_label (tickMarkFormatter tza s t)"
      unfolding l is_clock_label_def
      using dh MinFromTime_bounds[of ?lt]
      by (intro bexI[of _ "if h mod 12 = 0 then 12 else h mod 12"] bexI[of _ "MinFromTime ?lt"]
          bexI[of _ "if 12 \<le> h then ''PM'' else ''AM''"]) auto
    have nm: "\<not> is_month_day_label (tickMarkFormatter tza s t)"
      using cl clock_label_colon month_day_label_no_colon by blast
    have "take 3 (tickMarkFormatter tza s t) = ''12:''" if "h = 0 \<or> h = 12"
    proof -
      from that have "dec (nat (if h mod 12 = 0 then 12 else h mod 12)) = ''12''"
        by (auto simp: dec.simps digit_char_def)
      then show ?thesis
        unfolding l by simp
    qed
    with l cl nm show ?thesis
      by blast
  qed
  show ?thesis
    using t boundary clock unfolding h_def by blast
qed

theorem C4_tick_label_witness:
  "valid_time (Finite 1700003600) \<and> valid_time (Finite 1700000000) \<and>
   Finite 1700003600 \<notin> newDayTimestamps after_AAPL \<and>
   Finite 1700000000 \<in> newDayTimestamps after_AAPL \<and>
   HourFromTime (LocalTime utc_zone 1700003600000) = 23 \<and>
   MinFromTime (LocalTime utc_zone 1700003600000) = 13 \<and>
   tickMarkFormatter utc_zone after_AAPL (Finite 1700003600) = ''11:13 PM'' \<and>
   is_clock_label ''11:13 PM'' \<and> \<not> is_month_day_label ''11:13 PM'' \<and>
   MonthFromTime (LocalTime utc_zone 1700000000000) = 10 \<and>
   DateFromTime (LocalTime utc_zone 1700000000000) = 14 \<and>
   tickMarkFormatter utc_zone after_AAPL (Finite 1700000000) = ''Nov 14'' \<and>
   is_month_day_label ''Nov 14'' \<and> \<not> is_clock_label ''Nov 14''"
proof -
  have v: "valid_time (Finite 1700003600)" "valid_time (Finite 1700000000)"
    by (simp_all add: valid_time_iff)
  have m: "Finite 1700003600 \<notin> newDayTimestamps after_AAPL"
    "Finite 1700000000 \<in> newDayTimestamps after_AAPL"
    by simp_all
  from C4_tick_label [OF v(1), of after_AAPL utc_zone] m(1)
  have "is_clock_label ''11:13 PM'' \<and> \<not> is_month_day_label ''11:13 PM''"
    unfolding tick_1700003600 by blast
  moreover from C4_tick_label [OF v(2), of after_AAPL utc_zone] m(2)
  have "is_month_day_label ''Nov 14'' \<and> \<not> is_clock_label ''Nov 14''"
    unfolding tick_1700000000 by blast
  ultimately show ?thesis
    using v m tick_1700003600 tick_1700000000 fields_1700000000 fields_1700003600 by blast
qed

text \<open>
  The formatter is the callback that the chart library calls with a time of its choosing.
  For a time outside the range of \<open>Date\<close> the getters return \<open>NaN\<close>, and the label of a
  time that is not a day boundary is \<open>12:NaN AM\<close>, which is not a clock label. The hook
  itself never hands the library such a time, so this label shows only when the formatter
  is asked about a time that is not one of the chart's bars.
\<close>

theorem C4_counterexample:
  "Finite 10000000000000 \<notin> newDayTimestamps live_state \<and>
   tickMarkFormatter utc_zone live_state (Finite 10000000000000) = ''12:NaN AM'' \<and>
   \<not> is_clock_label ''12:NaN AM''"
proof -
  have "tickMarkFormatter utc_zone live_state (Finite 10000000000000) = ''12:NaN AM''"
    by (simp add: tickMarkFormatter_def new_Date_def TimeClip_def getHours_def getMinutes_def
        padStart_def dec.simps digit_char_def)
  moreover have "\<not> is_clock_label ''12:NaN AM''"
  proof
    assume "is_clock_label ''12:NaN AM''"
    then have "CHR ''N'' \<notin> set ''12:NaN AM''"
      by (rule clock_label_avoid) simp_all
    then show False by simp
  qed
  ultimately show ?thesis by simp
qed

subsection \<open>The crosshair handler\<close>

text \<open>
  C5. After a pointer-move notification both \<open>crosshairTime\<close> and \<open>crosshairX\<close> are null
  exactly when the notification has no pixel point or its time is not of type number;
  otherwise \<open>crosshairTime\<close> is the formatted label of the reported time and
  \<open>crosshairX\<close> is the reported x offset.
\<close>

theorem C5_crosshair:
  "((crosshairTime (crosshairMove formatCrosshairTime s param) = None \<and>
     crosshairX (crosshairMove formatCrosshairTime s param) = None)
      \<longleftrightarrow> (param_point param = None \<or> \<not> typeof_number (param_time param))) \<and>
   (\<forall>p t. param_point param = Some p \<and> param_time param = Some (UTCTimestamp t) \<longrightarrow>
      crosshairTime (crosshairMove formatCrosshairTime s param) = Some (formatCrosshairTime t) \<and>
      crosshairX (crosshairMove formatCrosshairTime s param) = Some (point_x p))"
  by (auto simp: crosshairMove_def split: option.splits Time.splits)

theorem C5_crosshair_witness:
  "crosshairTime
     (crosshairMove toString live_state
        \<lparr>param_time = Some (UTCTimestamp (Finite 1700000000)),
         param_point = Some \<lparr>point_x = Finite 120, point_y = Finite 40\<rparr>\<rparr>) =
     Some ''1700000000'' \<and>
   crosshairX
     (crosshairMove toString live_state
        \<lparr>param_time = Some (UTCTimestamp (Finite 1700000000)),
         param_point = Some \<lparr>point_x = Finite 120, point_y = Finite 40\<rparr>\<rparr>) =
     Some (Finite 120) \<and>
   crosshairTime
     (crosshairMove toString live_state
        \<lparr>param_time = Some (UTCTimestamp (Finite 1700000000)), param_point = None\<rparr>) = None \<and>
   crosshairX
     (crosshairMove toString live_state
        \<lparr>param_time = Some (UTCTimestamp (Finite 1700000000)), param_point = None\<rparr>) = None"
proof -
  define pt where "pt = \<lparr>point_x = Finite 120, point_y = Finite 40\<rparr>"
  define over where "over = \<lparr>param_time = Some (UTCTimestamp (Finite 1700000000)),
    param_point = Some pt\<rparr>"
  define out where "out = \<lparr>param_time = Some (UTCTimestamp (Finite 1700000000)),
    param_point = None\<rparr>"
  have label: "toString (Finite 1700000000) = ''1700000000''"
    by (simp add: dec.simps digit_char_def)
  have f: "param_point over = Some pt" "param_time over = Some (UTCTimestamp (Finite 1700000000))"
    "param_point out = None" "point_x pt = Finite 120"
    by (simp_all add: over_def out_def pt_def)
  from C5_crosshair [of toString live_state over] f(1,2)
  have "crosshairTime (crosshairMove toString live_state over) = Some (toString (Finite 1700000000)) \<and>
        crosshairX (crosshairMove toString live_state over) = Some (point_x pt)"
    by blast
  then have "crosshairTime (crosshairMove toString live_state over) = Some ''1700000000'' \<and>
        crosshairX (crosshairMove toString live_state over) = Some (Finite 120)"
    unfolding label f(4) .
  moreover from C5_crosshair [of toString live_state out] f(3)
  have "crosshairTime (crosshairMove toString live_state out) = None \<and>
        crosshairX (crosshairMove toString live_state out) = None"
    by blast
  ultimately show ?thesis
    unfolding over_def out_def pt_def by blast
qed

subsection \<open>The push of the candles\<close>

text \<open>
  C6, as the code has it. A run of the data effect with a live chart on a non-empty
  sequence of candles with convertible times throws nothing, replaces the series content
  by the whole sequence with \<open>setData\<close>, each candle with its time, open, high, low and
  close as they are (whatever the prices are, finite or not), and sets \<open>hasData\<close> to true.
\<close>

theorem C6_push:
  assumes "seriesRef s \<noteq> None" "chartRef s = Some chart" "candles \<noteq> []"
    "\<forall>c\<in>set candles. valid_time (time c)"
  shows "snd (reconcile s candles symbol) = None \<and>
         hasData (fst (reconcile s candles symbol)) \<and>
         map_option series_data (chartRef (fst (reconcile s candles symbol))) =
           Some (map formatted_candle candles) \<and>
         map_option (\<lambda>c. take (Suc (length (calls chart))) (calls c))
             (chartRef (fst (reconcile s candles symbol))) =
           Some (calls chart @ [SetData (map formatted_candle candles)]) \<and>
         length (map formatted_candle candles) = length candles \<and>
         (\<forall>i<length candles.
            data_time (map formatted_candle candles ! i) = time (candles ! i) \<and>
            data_open (map formatted_candle candles ! i) = open (candles ! i) \<and>
            data_high (map formatted_candle candles ! i) = high (candles ! i) \<and>
            data_low (map formatted_candle candles ! i) = low (candles ! i) \<and>
            data_close (map formatted_candle candles ! i) = close (candles ! i))"
  by (simp add: reconcile_valid[OF assms] setData_def fitContent_def applyOptions_autoScale_def
      formatted_candle_def)

theorem C6_push_witness:
  "seriesRef live_state \<noteq> None \<and> chartRef live_state = Some createChart \<and> scenario_A \<noteq> [] \<and>
   valid_time (Finite 1700000000) \<and> valid_time (Finite 1700003600) \<and>
   valid_time (Finite 1700086400) \<and>
   snd (reconcile live_state scenario_A ''AAPL'') = None \<and>
   hasData (fst (reconcile live_state scenario_A ''AAPL'')) \<and>
   map_option series_data (chartRef (fst (reconcile live_state scenario_A ''AAPL''))) =
     Some (map formatted_candle scenario_A) \<and>
   data_high (map formatted_candle scenario_A ! 0) = PosInfinity \<and>
   data_close (map formatted_candle scenario_A ! 2) = NaN"
proof -
  have ne: "scenario_A \<noteq> []"
    by (simp add: scenario_A_def)
  have "data_high (map formatted_candle scenario_A ! 0) = PosInfinity"
    "data_close (map formatted_candle scenario_A ! 2) = NaN"
    by (simp_all add: scenario_A_def formatted_candle_def candle_at_def)
  then show ?thesis
    using C6_push [of live_state createChart scenario_A "''AAPL''"] scenario_A_valid
      scenario_A_times ne
    by simp
qed

text \<open>
  A time that is not finite is not passed through: the run leaves the effect by the
  \<open>RangeError\<close> of \<open>toISOString\<close> before \<open>setData\<close>, and \<open>hasData\<close> stays as it was.
\<close>

theorem C6_counterexample:
  "seriesRef live_state \<noteq> None \<and> chartRef live_state \<noteq> None \<and> [candle_at NaN] \<noteq> [] \<and>
   snd (reconcile live_state [candle_at NaN] ''AAPL'') = Some RangeError \<and>
   map_option series_data (chartRef (fst (reconcile live_state [candle_at NaN] ''AAPL''))) = Some [] \<and>
   map_option calls (chartRef (fst (reconcile live_state [candle_at NaN] ''AAPL''))) = Some [] \<and>
   \<not> hasData (fst (reconcile live_state [candle_at NaN] ''AAPL''))"
proof -
  have "\<not> valid_time (time (candle_at NaN))"
    by (simp add: candle_at_def valid_time_iff)
  then show ?thesis
    by (simp add: reconcile_invalid createChart_def)
qed

subsection \<open>The day-boundary set is rebuilt, not patched\<close>

text \<open>
  C7, as the code has it. A run of the data effect with a live chart on a non-empty candle
  sequence leaves a day-boundary set that depends on that sequence only, not on the set or
  the state from before, and that holds only times of that sequence. A run that returns
  early, on an empty sequence or without a chart, leaves the set as it was.
\<close>

theorem C7_recomputed:
  "(seriesRef s \<noteq> None \<and> chartRef s \<noteq> None \<and> seriesRef s' \<noteq> None \<and> chartRef s' \<noteq> None \<and>
    candles \<noteq> [] \<longrightarrow>
      newDayTimestamps (fst (reconcile s candles symbol)) =
        newDayTimestamps (fst (reconcile s' candles symbol')) \<and>
      newDayTimestamps (fst (reconcile s candles symbol)) \<subseteq> time ` set candles) \<and>
   (seriesRef s = None \<or> chartRef s = None \<or> candles = [] \<longrightarrow>
      newDayTimestamps (fst (reconcile s candles symbol)) = newDayTimestamps s)"
proof (intro conjI impI)
  assume a: "seriesRef s \<noteq> None \<and> chartRef s \<noteq> None \<and> seriesRef s' \<noteq> None \<and>
    chartRef s' \<noteq> None \<and> candles \<noteq> []"
  then have ne: "candles \<noteq> []"
    by simp
  have r: "newDayTimestamps (fst (reconcile u candles sym)) = fst (forEach_candle candles {} None)"
    if "seriesRef u \<noteq> None" "chartRef u \<noteq> None" for u sym
  proof (cases "\<forall>c\<in>set candles. valid_time (time c)")
    case True
    from that(2) obtain chart where "chartRef u = Some chart" by blast
    then show ?thesis
      using reconcile_valid[OF that(1) _ ne True] by simp
  next
    case False
    then show ?thesis
      using reconcile_invalid[OF that ne] by simp
  qed
  from a have live: "seriesRef s \<noteq> None" "chartRef s \<noteq> None" "seriesRef s' \<noteq> None"
    "chartRef s' \<noteq> None"
    by simp_all
  show "newDayTimestamps (fst (reconcile s candles symbol)) =
        newDayTimestamps (fst (reconcile s' candles symbol'))"
    by (simp add: r[OF live(1,2)] r[OF live(3,4)])
  show "newDayTimestamps (fst (reconcile s candles symbol)) \<subseteq> time ` set candles"
    using forEach_candle_subset[of candles "{}" None] by (simp add: r[OF live(1,2)])
next
  assume "seriesRef s = None \<or> chartRef s = None \<or> candles = []"
  then show "newDayTimestamps (fst (reconcile s candles symbol)) = newDayTimestamps s"
    by (simp add: reconcile_early)
qed

theorem C7_recomputed_witness:
  "seriesRef live_state \<noteq> None \<and> chartRef live_state \<noteq> None \<and>
   seriesRef after_AAPL \<noteq> None \<and> chartRef after_AAPL \<noteq> None \<and> next_day \<noteq> [] \<and>
   newDayTimestamps after_AAPL = {Finite 1700000000, Finite 1700086400} \<and>
   newDayTimestamps (fst (reconcile after_AAPL next_day ''AAPL'')) = {Finite 1700090000} \<and>
   newDayTimestamps (fst (reconcile live_state next_day ''MSFT'')) = {Finite 1700090000} \<and>
   newDayTimestamps (fst (reconcile after_AAPL [] ''AAPL'')) =
     {Finite 1700000000, Finite 1700086400}"
proof -
  have ne: "next_day \<noteq> []"
    by (simp add: next_day_def)
  have refs: "seriesRef live_state \<noteq> None" "chartRef live_state \<noteq> None"
    "seriesRef after_AAPL \<noteq> None" "chartRef after_AAPL \<noteq> None"
    by simp_all
  have fresh: "newDayTimestamps (fst (reconcile live_state next_day ''MSFT'')) = {Finite 1700090000}"
    using next_day_valid ne by (simp add: reconcile_valid next_day_days)
  from C7_recomputed [of after_AAPL live_state next_day "''AAPL''" "''MSFT''"] refs ne
  have "newDayTimestamps (fst (reconcile after_AAPL next_day ''AAPL'')) =
        newDayTimestamps (fst (reconcile live_state next_day ''MSFT''))"
    by blast
  moreover from C7_recomputed [of after_AAPL after_AAPL "[]" "''AAPL''" "''AAPL''"]
  have "newDayTimestamps (fst (reconcile after_AAPL [] ''AAPL'')) = newDayTimestamps after_AAPL"
    by blast
  ultimately show ?thesis
    using refs ne fresh by simp
qed

text \<open>
  On an empty snapshot the set is not rebuilt: after a run on scenario A, a run on the
  empty sequence leaves the two times of scenario A in the set, while the same run from a
  fresh state leaves the empty set.
\<close>

theorem C7_counterexample:
  "seriesRef live_state \<noteq> None \<and> chartRef live_state \<noteq> None \<and>
   seriesRef after_AAPL \<noteq> None \<and> chartRef after_AAPL \<noteq> None \<and>
   newDayTimestamps (fst (reconcile live_state [] ''AAPL'')) = {} \<and>
   newDayTimestamps (fst (reconcile after_AAPL [] ''AAPL'')) =
     {Finite 1700000000, Finite 1700086400}"
proof -
  have ne: "scenario_A \<noteq> []"
    by (simp add: scenario_A_def)
  have a: "after_AAPL =
      live_state\<lparr>newDayTimestamps := {Finite 1700000000, Finite 1700086400},
        chartRef := Some (applyOptions_autoScale
                           (fitContent (setData (map formatted_candle scenario_A) createChart))),
        hasData := True, prevSymbolRef := Some ''AAPL''\<rparr>"
    unfolding after_AAPL_def using scenario_A_valid ne
    by (simp add: reconcile_valid scenario_A_days)
  show ?thesis
    by (simp add: a reconcile_early)
qed

subsection \<open>\<open>resetView\<close>\<close>

lemma viewport_fit_auto:
  "viewport (applyOptions_autoScale (fitContent (applyOptions_autoScale (fitContent chart)))) =
   viewport (applyOptions_autoScale (fitContent chart))"
  by (simp add: viewport_def applyOptions_autoScale_def fitContent_def)

lemma resetView_Some:
  "chartRef s = Some chart \<Longrightarrow>
     resetView s = s\<lparr>chartRef := Some (applyOptions_autoScale (fitContent chart))\<rparr>"
  by (simp add: resetView_def)

lemma resetView_None: "chartRef s = None \<Longrightarrow> resetView s = s"
  by (simp add: resetView_def)

text \<open>
  C8. Calling \<open>resetView\<close> twice in a row leaves the same viewport as calling it once
  (the series content is not touched by the call), and without a live chart handle
  \<open>resetView\<close> changes nothing.
\<close>

theorem C8_resetView:
  "map_option viewport (chartRef (resetView (resetView s))) =
     map_option viewport (chartRef (resetView s)) \<and>
   map_option series_data (chartRef (resetView s)) = map_option series_data (chartRef s) \<and>
   (chartRef s = None \<longrightarrow> resetView s = s)"
proof (cases "chartRef s")
  case None
  then show ?thesis
    by (simp add: resetView_None)
next
  case (Some chart)
  then show ?thesis
    by (simp add: resetView_Some viewport_fit_auto)
       (simp add: applyOptions_autoScale_def fitContent_def)
qed

theorem C8_resetView_witness:
  "chartRef initial_state = None \<and> resetView initial_state = initial_state \<and>
   map_option viewport (chartRef (resetView after_AAPL)) = Some (Some (0, 2), True) \<and>
   map_option viewport (chartRef (resetView (resetView after_AAPL))) = Some (Some (0, 2), True)"
proof -
  have one: "map_option viewport (chartRef (resetView after_AAPL)) = Some (Some (0, 2), True)"
    by (simp add: resetView_def viewport_def applyOptions_autoScale_def fitContent_def
        setData_def scenario_A_def)
  from C8_resetView [of initial_state] C8_resetView [of after_AAPL] one
  show ?thesis
    by (simp add: initial_state_def)
qed

subsection \<open>The first run with data\<close>

text \<open>
  C9, as the code has it. After the mount, and after any number of runs of the data effect
  that return early (on an empty sequence) or throw (on a time that does not convert), the
  first run on a non-empty sequence of candles with convertible times resets the view
  whatever the symbol is: the engine calls are \<open>setData\<close>, \<open>fitContent\<close> and the
  price-scale \<open>autoScale\<close>, and the viewport shows all bars.
\<close>

theorem C9_first_reset:
  assumes "\<forall>run\<in>set earlier. fst run = [] \<or> (\<exists>c\<in>set (fst run). \<not> valid_time (time c))"
    "candles \<noteq> []" "\<forall>c\<in>set candles. valid_time (time c)"
  shows "\<exists>chart'.
           chartRef (fst (reconcile (reconcile_all (mountEffect True initial_state) earlier)
                            candles symbol)) = Some chart' \<and>
           calls chart' = [SetData (map formatted_candle candles), FitContent, ApplyAutoScale] \<and>
           viewport chart' = (Some (0, int (length candles) - 1), True)"
proof -
  let ?s = "reconcile_all (mountEffect True initial_state) earlier"
  have "chartRef ?s = Some createChart" "seriesRef ?s \<noteq> None" "prevSymbolRef ?s = None"
    using reconcile_all_idle[OF assms(1), of "mountEffect True initial_state"]
    by (simp_all add: mountEffect_def initial_state_def)
  from reconcile_calls(1)[OF this(2) this(1) assms(2,3), of symbol] this(3)
  obtain chart' where
    "chartRef (fst (reconcile ?s candles symbol)) = Some chart'"
    "calls chart' =
       calls createChart @ [SetData (map formatted_candle candles), FitContent, ApplyAutoScale]"
    "viewport chart' = (Some (0, int (length candles) - 1), True)"
    by auto
  then show ?thesis
    by (simp add: createChart_def)
qed

theorem C9_first_reset_witness:
  "fst (([] :: Candle list), ''AAPL'') = [] \<and> \<not> valid_time (time far_candle) \<and>
   scenario_A \<noteq> [] \<and> valid_time (Finite 1700000000) \<and> valid_time (Finite 1700003600) \<and>
   valid_time (Finite 1700086400) \<and>
   (\<exists>chart'.
      chartRef (fst (reconcile
          (reconcile_all (mountEffect True initial_state) [([], ''AAPL''), ([far_candle], ''MSFT'')])
          scenario_A ''MSFT'')) = Some chart' \<and>
      calls chart' = [SetData (map formatted_candle scenario_A), FitContent, ApplyAutoScale] \<and>
      viewport chart' = (Some (0, 2), True))"
proof -
  have ne: "scenario_A \<noteq> []" and len: "int (length scenario_A) - 1 = 2"
    by (simp_all add: scenario_A_def)
  have e: "\<forall>run\<in>set [([], ''AAPL''), ([far_candle], ''MSFT'')].
             fst run = [] \<or> (\<exists>c\<in>set (fst run). \<not> valid_time (time c))"
    using far_candle_invalid by simp
  from C9_first_reset [OF e ne scenario_A_valid, of "''MSFT''"] ne scenario_A_times
    far_candle_invalid
  show ?thesis
    unfolding len by simp
qed

text \<open>
  A first run on a candle outside the range of \<open>Date\<close> throws and calls the engine not
  at all.
\<close>

theorem C9_counterexample:
  "reconcile_all (mountEffect True initial_state) [] = live_state \<and>
   seriesRef live_state \<noteq> None \<and> chartRef live_state \<noteq> None \<and> [far_candle] \<noteq> [] \<and>
   snd (reconcile live_state [far_candle] ''AAPL'') = Some RangeError \<and>
   map_option calls (chartRef (fst (reconcile live_state [far_candle] ''AAPL''))) = Some []"
  using far_candle_invalid by (simp add: reconcile_invalid live_state_def[symmetric] createChart_def)

subsection \<open>What the early return leaves in place\<close>

text \<open>
  C10, as the code has it. A run of the data effect that returns early leaves the
  day-boundary set, the recorded symbol and the chart as they were, so every tick label
  is computed from the old set. When such a run on the empty sequence brings a new symbol,
  no reset is made then; the next run on a non-empty sequence of candles with convertible
  times, with that symbol, makes it.
\<close>

theorem C10_early_return_frame:
  "((seriesRef s = None \<or> chartRef s = None \<or> candles = []) \<longrightarrow>
      newDayTimestamps (fst (reconcile s candles symbol)) = newDayTimestamps s \<and>
      prevSymbolRef (fst (reconcile s candles symbol)) = prevSymbolRef s \<and>
      chartRef (fst (reconcile s candles symbol)) = chartRef s \<and>
      (\<forall>tza t. tickMarkFormatter tza (fst (reconcile s candles symbol)) t =
                tickMarkFormatter tza s t)) \<and>
   (seriesRef s \<noteq> None \<and> chartRef s = Some chart \<and> prevSymbolRef s \<noteq> Some symbol \<and>
    later \<noteq> [] \<and> (\<forall>c\<in>set later. valid_time (time c)) \<longrightarrow>
      (\<exists>chart'.
         chartRef (fst (reconcile (fst (reconcile s [] symbol)) later symbol)) = Some chart' \<and>
         calls chart' =
           calls chart @ [SetData (map formatted_candle later), FitContent, ApplyAutoScale]))"
proof (intro conjI impI)
  assume a: "seriesRef s = None \<or> chartRef s = None \<or> candles = []"
  have r: "reconcile s candles symbol = (s\<lparr>hasData := False\<rparr>, None)"
    using reconcile_early[OF a] by simp
  show "newDayTimestamps (fst (reconcile s candles symbol)) = newDayTimestamps s"
    "prevSymbolRef (fst (reconcile s candles symbol)) = prevSymbolRef s"
    "chartRef (fst (reconcile s candles symbol)) = chartRef s"
    "\<forall>tza t. tickMarkFormatter tza (fst (reconcile s candles symbol)) t =
              tickMarkFormatter tza s t"
    by (simp_all add: r tickMarkFormatter_def)
next
  assume b: "seriesRef s \<noteq> None \<and> chartRef s = Some chart \<and> prevSymbolRef s \<noteq> Some symbol \<and>
    later \<noteq> [] \<and> (\<forall>c\<in>set later. valid_time (time c))"
  let ?s1 = "fst (reconcile s [] symbol)"
  have r: "reconcile s [] symbol = (s\<lparr>hasData := False\<rparr>, None)"
    using reconcile_early[of s "[]" symbol] by simp
  have s1: "seriesRef ?s1 \<noteq> None" "chartRef ?s1 = Some chart" "prevSymbolRef ?s1 \<noteq> Some symbol"
    using b by (simp_all add: r)
  from b have l: "later \<noteq> []" "\<forall>c\<in>set later. valid_time (time c)"
    by simp_all
  from reconcile_calls(1)[OF s1(1,2) l, of symbol] s1(3)
  show "\<exists>chart'.
         chartRef (fst (reconcile ?s1 later symbol)) = Some chart' \<and>
         calls chart' =
           calls chart @ [SetData (map formatted_candle later), FitContent, ApplyAutoScale]"
    by blast
qed

theorem C10_early_return_frame_witness:
  "(seriesRef after_AAPL = None \<or> chartRef after_AAPL = None \<or> ([] :: Candle list) = []) \<and>
   newDayTimestamps (fst (reconcile after_AAPL [] ''MSFT'')) =
     {Finite 1700000000, Finite 1700086400} \<and>
   prevSymbolRef (fst (reconcile after_AAPL [] ''MSFT'')) = Some ''AAPL'' \<and>
   tickMarkFormatter utc_zone (fst (reconcile after_AAPL [] ''MSFT'')) (Finite 1700000000) =
     ''Nov 14'' \<and>
   chartRef (fst (reconcile after_AAPL [] ''MSFT'')) = chartRef after_AAPL \<and>
   prevSymbolRef after_AAPL \<noteq> Some ''MSFT'' \<and> next_day \<noteq> [] \<and>
   valid_time (Finite 1700090000) \<and>
   (\<exists>chart'.
      chartRef (fst (reconcile (fst (reconcile after_AAPL [] ''MSFT'')) next_day ''MSFT'')) =
        Some chart' \<and>
      calls chart' =
        [SetData (map formatted_candle scenario_A), FitContent, ApplyAutoScale] @
        [SetData (map formatted_candle next_day), FitContent, ApplyAutoScale])"
proof -
  have ne: "next_day \<noteq> []"
    by (simp add: next_day_def)
  define chart where
    "chart = applyOptions_autoScale (fitContent (setData (map formatted_candle scenario_A) createChart))"
  have c: "chartRef after_AAPL = Some chart"
    and cc: "calls chart = [SetData (map formatted_candle scenario_A), FitContent, ApplyAutoScale]"
    by (simp_all add: chart_def applyOptions_autoScale_def fitContent_def setData_def
        createChart_def)
  note inst = C10_early_return_frame [of after_AAPL "[]" "''MSFT''" chart next_day]
  have frame:
    "newDayTimestamps (fst (reconcile after_AAPL [] ''MSFT'')) = newDayTimestamps after_AAPL"
    "prevSymbolRef (fst (reconcile after_AAPL [] ''MSFT'')) = prevSymbolRef after_AAPL"
    "chartRef (fst (reconcile after_AAPL [] ''MSFT'')) = chartRef after_AAPL"
    "tickMarkFormatter utc_zone (fst (reconcile after_AAPL [] ''MSFT'')) (Finite 1700000000) =
       tickMarkFormatter utc_zone after_AAPL (Finite 1700000000)"
    using inst by simp_all
  have "\<exists>chart'.
      chartRef (fst (reconcile (fst (reconcile after_AAPL [] ''MSFT'')) next_day ''MSFT'')) =
        Some chart' \<and>
      calls chart' = calls chart @ [SetData (map formatted_candle next_day), FitContent, ApplyAutoScale]"
    using inst c ne next_day_valid by simp
  with frame show ?thesis
    using ne next_day_time by (simp add: tick_1700000000 cc)
qed

text \<open>
  When the next non-empty run is on a candle outside the range of \<open>Date\<close>, it throws and
  the reset is still not made.
\<close>

theorem C10_counterexample:
  "seriesRef after_AAPL \<noteq> None \<and> chartRef after_AAPL \<noteq> None \<and>
   prevSymbolRef after_AAPL = Some ''AAPL'' \<and> ''MSFT'' \<noteq> ''AAPL'' \<and> [far_candle] \<noteq> [] \<and>
   chartRef (fst (reconcile after_AAPL [] ''MSFT'')) = chartRef after_AAPL \<and>
   chartRef (fst (reconcile (fst (reconcile after_AAPL [] ''MSFT'')) [far_candle] ''MSFT'')) =
     chartRef after_AAPL"
proof -
  have "reconcile after_AAPL [] ''MSFT'' = (after_AAPL\<lparr>hasData := False\<rparr>, None)"
    using reconcile_early[of after_AAPL "[]" "''MSFT''"] by simp
  then show ?thesis
    using far_candle_invalid by (simp add: reconcile_invalid)
qed

end
